theory Spec2Isabelle
  imports Complex_Main
begin

section \<open>Root-finding methods of \<^verbatim>\<open>metodos_cap2.py\<close>\<close>

text \<open>
  The five iterative methods of the module (\<open>bisseccao\<close>, \<open>regula_falsi\<close>,
  \<open>iterativo_linear\<close>, \<open>newton\<close>, \<open>secante\<close>) are embedded as HOL functions.
  Python floats are modelled by \<open>real\<close>: the values of the estimates and of \<open>erro\<close>
  are computed exactly, and their rounding is not modelled.  The product inside the
  sign tests of the bracketing methods is modelled with its underflow (\<open>float_mul\<close>
  below), because an underflow to zero changes the branch that the test takes.
  The float \<open>nan\<close> that the bracketing methods store in the first row's \<open>erro\<close> is
  \<open>None\<close> of a \<open>real option\<close>.  Exceptions are values of \<open>error\<close>, and a Python
  float division by zero raises \<open>ZeroDivisionError\<close> (it never yields an infinity).
\<close>

subsection \<open>Errors and the expression evaluator\<close>

text \<open>
  \<open>EvalValueError\<close> is the \<open>ValueError\<close> that \<open>safe_eval\<close> raises,
  \<open>BracketValueError\<close> the \<open>ValueError\<close> of the sign test of the bracketing methods,
  \<open>ZeroDivisionError\<close> the exception of that name (raised explicitly by \<open>newton\<close> and
  \<open>secante\<close>, and by the float division itself in \<open>regula_falsi\<close>).
\<close>

datatype error = EvalValueError | BracketValueError | ZeroDivisionError

text \<open>
  An expression string denotes a partial function: \<open>None\<close> where Python's \<open>eval\<close> (or the
  conversion to float) raises.  \<open>safe_eval\<close> turns every such exception into its
  \<open>ValueError\<close>.
\<close>

type_synonym expr = "real \<Rightarrow> real option"

definition safe_eval :: "expr \<Rightarrow> real \<Rightarrow> error + real" where
  "safe_eval e x = (case e x of None \<Rightarrow> Inl EvalValueError | Some v \<Rightarrow> Inr v)"

subsection \<open>The float product of the sign tests\<close>

text \<open>
  \<open>fa * fb > 0\<close> and \<open>fa * fc < 0\<close> multiply two doubles and compare the double result
  with 0.  In IEEE 754 double precision with rounding to nearest, ties to even, the least
  positive double is \<open>2^-1074\<close>: an exact product of magnitude at most \<open>2^-1075\<close> is
  rounded to a zero (the tie \<open>2^-1075\<close> goes to the even neighbour, which is zero), and
  \<open>0.0 > 0\<close>, \<open>-0.0 < 0\<close> are both false; every other product is rounded to a nonzero
  double, or to an infinity, of the same sign.  \<open>float_mul\<close> is the product as these
  comparisons see it: zero where the double product is a zero, the exact product
  elsewhere.
\<close>

definition underflow_bound :: real where
  "underflow_bound = 1 / 2 ^ 1075"

definition float_mul :: "real \<Rightarrow> real \<Rightarrow> real" where
  "float_mul x y = (if \<bar>x * y\<bar> \<le> underflow_bound then 0 else x * y)"

subsection \<open>The loop \<open>for k in range(1, int(max_iter) + 1)\<close>\<close>

text \<open>
  One pass through a loop body ends in a \<open>raise\<close>, in a \<open>break\<close>, or falls through to the
  next value of \<open>k\<close>; the last two carry the local variables.
\<close>

datatype 's outcome = Raise error | Break 's | Continue 's

text \<open>
  \<open>for_range body n k s\<close> runs the remaining \<open>n\<close> passes, the next one with index \<open>k\<close>;
  \<open>range(1, int(max_iter) + 1)\<close> has \<open>nat max_iter\<close> elements (none for
  \<open>max_iter \<le> 0\<close>).
\<close>

fun for_range :: "(int \<Rightarrow> 's \<Rightarrow> 's outcome) \<Rightarrow> nat \<Rightarrow> int \<Rightarrow> 's \<Rightarrow> error + 's" where
  "for_range body 0 k s = Inr s"
| "for_range body (Suc n) k s =
     (case body k s of
        Raise e \<Rightarrow> Inl e
      | Break s' \<Rightarrow> Inr s'
      | Continue s' \<Rightarrow> for_range body n (k + 1) s')"

text \<open>
  The passes that the loop starts: the index \<open>k\<close> and the local variables at the top of
  each body execution, in order.
\<close>

fun reached :: "(int \<Rightarrow> 's \<Rightarrow> 's outcome) \<Rightarrow> nat \<Rightarrow> int \<Rightarrow> 's \<Rightarrow> (int \<times> 's) list" where
  "reached body 0 k s = []"
| "reached body (Suc n) k s =
     (k, s) # (case body k s of Continue s' \<Rightarrow> reached body n (k + 1) s' | _ \<Rightarrow> [])"

subsection \<open>Bisection and regula falsi\<close>

record bracket_row =
  r_iter :: int
  r_a :: real
  r_b :: real
  r_x :: real
  r_fx :: real
  r_erro :: "real option"

record bracket_state =
  bs_a :: real
  bs_b :: real
  bs_fa :: real
  bs_fb :: real
  bs_x_prev :: "real option"
  bs_rows :: "bracket_row list"

text \<open>
  Both loops compute an estimate \<open>c\<close> and \<open>fc = f(c)\<close> and then run the same statements:
  append the row (with \<open>erro = nan\<close> while \<open>x_prev\<close> is \<open>None\<close>), test
  \<open>abs(fc) < tol or (x_prev is not None and abs(c - x_prev) < tol)\<close>, and otherwise
  move one end of the bracket and set \<open>x_prev = c\<close>.  \<open>bracket_step\<close> is that common
  tail of the loop body; the two bodies differ in how they compute \<open>c\<close>.
\<close>

definition bracket_step ::
  "real \<Rightarrow> int \<Rightarrow> bracket_state \<Rightarrow> real \<Rightarrow> real \<Rightarrow> bracket_state outcome" where
  "bracket_step tol k s c fc =
     (let err = (case bs_x_prev s of None \<Rightarrow> None | Some p \<Rightarrow> Some \<bar>c - p\<bar>);
          s1 = s\<lparr>bs_rows := bs_rows s @
                 [\<lparr>r_iter = k, r_a = bs_a s, r_b = bs_b s, r_x = c, r_fx = fc, r_erro = err\<rparr>]\<rparr>
      in if \<bar>fc\<bar> < tol \<or> (case bs_x_prev s of None \<Rightarrow> False | Some p \<Rightarrow> \<bar>c - p\<bar> < tol)
         then Break s1
         else Continue
           ((if float_mul (bs_fa s) fc < 0 then s1\<lparr>bs_b := c, bs_fb := fc\<rparr>
             else s1\<lparr>bs_a := c, bs_fa := fc\<rparr>)\<lparr>bs_x_prev := Some c\<rparr>))"

definition bisseccao_body :: "expr \<Rightarrow> real \<Rightarrow> int \<Rightarrow> bracket_state \<Rightarrow> bracket_state outcome" where
  "bisseccao_body f_expr tol k s =
     (let c = (bs_a s + bs_b s) / 2
      in case safe_eval f_expr c of
           Inl e \<Rightarrow> Raise e
         | Inr fc \<Rightarrow> bracket_step tol k s c fc)"

definition regula_falsi_body :: "expr \<Rightarrow> real \<Rightarrow> int \<Rightarrow> bracket_state \<Rightarrow> bracket_state outcome" where
  "regula_falsi_body f_expr tol k s =
     (if bs_fb s - bs_fa s = 0 then Raise ZeroDivisionError
      else let c = bs_b s - bs_fb s * (bs_b s - bs_a s) / (bs_fb s - bs_fa s)
           in case safe_eval f_expr c of
                Inl e \<Rightarrow> Raise e
              | Inr fc \<Rightarrow> bracket_step tol k s c fc)"

text \<open>The statements before the loop: both endpoint evaluations, then the sign test.\<close>

definition bracket_start :: "expr \<Rightarrow> real \<Rightarrow> real \<Rightarrow> error + bracket_state" where
  "bracket_start f_expr a b =
     (case safe_eval f_expr a of
        Inl e \<Rightarrow> Inl e
      | Inr fa \<Rightarrow>
         (case safe_eval f_expr b of
            Inl e \<Rightarrow> Inl e
          | Inr fb \<Rightarrow>
             if float_mul fa fb > 0 then Inl BracketValueError
             else Inr \<lparr>bs_a = a, bs_b = b, bs_fa = fa, bs_fb = fb,
                       bs_x_prev = None, bs_rows = []\<rparr>))"

definition bracket_method ::
  "(expr \<Rightarrow> real \<Rightarrow> int \<Rightarrow> bracket_state \<Rightarrow> bracket_state outcome) \<Rightarrow>
   expr \<Rightarrow> real \<Rightarrow> real \<Rightarrow> real \<Rightarrow> int \<Rightarrow> error + bracket_state" where
  "bracket_method body f_expr a b tol max_iter =
     (case bracket_start f_expr a b of
        Inl e \<Rightarrow> Inl e
      | Inr s0 \<Rightarrow> for_range (body f_expr tol) (nat max_iter) 1 s0)"

text \<open>The passes through the loop body that an invocation starts (none if it fails before).\<close>

definition bracket_passes ::
  "(expr \<Rightarrow> real \<Rightarrow> int \<Rightarrow> bracket_state \<Rightarrow> bracket_state outcome) \<Rightarrow>
   expr \<Rightarrow> real \<Rightarrow> real \<Rightarrow> real \<Rightarrow> int \<Rightarrow> (int \<times> bracket_state) list" where
  "bracket_passes body f_expr a b tol max_iter =
     (case bracket_start f_expr a b of
        Inl e \<Rightarrow> []
      | Inr s0 \<Rightarrow> reached (body f_expr tol) (nat max_iter) 1 s0)"

definition bisseccao :: "expr \<Rightarrow> real \<Rightarrow> real \<Rightarrow> real \<Rightarrow> int \<Rightarrow> error + bracket_row list" where
  "bisseccao f_expr a b tol max_iter =
     map_sum id bs_rows (bracket_method bisseccao_body f_expr a b tol max_iter)"

definition regula_falsi :: "expr \<Rightarrow> real \<Rightarrow> real \<Rightarrow> real \<Rightarrow> int \<Rightarrow> error + bracket_row list" where
  "regula_falsi f_expr a b tol max_iter =
     map_sum id bs_rows (bracket_method regula_falsi_body f_expr a b tol max_iter)"

subsection \<open>Fixed-point iteration\<close>

record fp_row =
  fp_iter :: int
  fp_x :: real
  fp_gx :: real
  fp_erro :: real

record fp_state =
  fs_x_prev :: real
  fs_rows :: "fp_row list"

definition iterativo_linear_body :: "expr \<Rightarrow> real \<Rightarrow> int \<Rightarrow> fp_state \<Rightarrow> fp_state outcome" where
  "iterativo_linear_body g_expr tol k s =
     (case safe_eval g_expr (fs_x_prev s) of
        Inl e \<Rightarrow> Raise e
      | Inr x \<Rightarrow>
         let err = \<bar>x - fs_x_prev s\<bar>;
             s1 = s\<lparr>fs_rows := fs_rows s @
                    [\<lparr>fp_iter = k, fp_x = x, fp_gx = x, fp_erro = err\<rparr>]\<rparr>
         in if err < tol then Break s1 else Continue (s1\<lparr>fs_x_prev := x\<rparr>))"

definition iterativo_linear_loop :: "expr \<Rightarrow> real \<Rightarrow> real \<Rightarrow> int \<Rightarrow> error + fp_state" where
  "iterativo_linear_loop g_expr x0 tol max_iter =
     for_range (iterativo_linear_body g_expr tol) (nat max_iter) 1
       \<lparr>fs_x_prev = x0, fs_rows = []\<rparr>"

definition iterativo_linear_passes ::
  "expr \<Rightarrow> real \<Rightarrow> real \<Rightarrow> int \<Rightarrow> (int \<times> fp_state) list" where
  "iterativo_linear_passes g_expr x0 tol max_iter =
     reached (iterativo_linear_body g_expr tol) (nat max_iter) 1
       \<lparr>fs_x_prev = x0, fs_rows = []\<rparr>"

definition iterativo_linear :: "expr \<Rightarrow> real \<Rightarrow> real \<Rightarrow> int \<Rightarrow> error + fp_row list" where
  "iterativo_linear g_expr x0 tol max_iter =
     map_sum id fs_rows (iterativo_linear_loop g_expr x0 tol max_iter)"

subsection \<open>Newton's method\<close>

record newton_row =
  nw_iter :: int
  nw_x :: real
  nw_fx :: real
  nw_dfx :: real
  nw_erro :: real

record newton_state =
  ns_x :: real
  ns_rows :: "newton_row list"

definition newton_body :: "expr \<Rightarrow> expr \<Rightarrow> real \<Rightarrow> int \<Rightarrow> newton_state \<Rightarrow> newton_state outcome" where
  "newton_body f_expr df_expr tol k s =
     (case safe_eval f_expr (ns_x s) of
        Inl e \<Rightarrow> Raise e
      | Inr fx \<Rightarrow>
         (case safe_eval df_expr (ns_x s) of
            Inl e \<Rightarrow> Raise e
          | Inr dfx \<Rightarrow>
             if dfx = 0 then Raise ZeroDivisionError
             else let x_new = ns_x s - fx / dfx;
                      err = \<bar>x_new - ns_x s\<bar>;
                      s1 = s\<lparr>ns_rows := ns_rows s @
                             [\<lparr>nw_iter = k, nw_x = x_new, nw_fx = fx, nw_dfx = dfx,
                               nw_erro = err\<rparr>]\<rparr>
                  in if \<bar>fx\<bar> < tol \<or> err < tol then Break (s1\<lparr>ns_x := x_new\<rparr>)
                     else Continue (s1\<lparr>ns_x := x_new\<rparr>)))"

definition newton_loop :: "expr \<Rightarrow> expr \<Rightarrow> real \<Rightarrow> real \<Rightarrow> int \<Rightarrow> error + newton_state" where
  "newton_loop f_expr df_expr x0 tol max_iter =
     for_range (newton_body f_expr df_expr tol) (nat max_iter) 1
       \<lparr>ns_x = x0, ns_rows = []\<rparr>"

definition newton_passes ::
  "expr \<Rightarrow> expr \<Rightarrow> real \<Rightarrow> real \<Rightarrow> int \<Rightarrow> (int \<times> newton_state) list" where
  "newton_passes f_expr df_expr x0 tol max_iter =
     reached (newton_body f_expr df_expr tol) (nat max_iter) 1
       \<lparr>ns_x = x0, ns_rows = []\<rparr>"

definition newton :: "expr \<Rightarrow> expr \<Rightarrow> real \<Rightarrow> real \<Rightarrow> int \<Rightarrow> error + newton_row list" where
  "newton f_expr df_expr x0 tol max_iter =
     map_sum id ns_rows (newton_loop f_expr df_expr x0 tol max_iter)"

subsection \<open>Secant method\<close>

record secante_row =
  sc_iter :: int
  sc_x_km1 :: real
  sc_x_k :: real
  sc_x_kp1 :: real
  sc_fx_k :: real
  sc_erro :: real

record secante_state =
  ss_x_prev :: real
  ss_x :: real
  ss_f_prev :: real
  ss_fx :: real
  ss_rows :: "secante_row list"

definition secante_body :: "expr \<Rightarrow> real \<Rightarrow> int \<Rightarrow> secante_state \<Rightarrow> secante_state outcome" where
  "secante_body f_expr tol k s =
     (let denom = ss_fx s - ss_f_prev s
      in if denom = 0 then Raise ZeroDivisionError
         else let x_new = ss_x s - ss_fx s * (ss_x s - ss_x_prev s) / denom;
                  err = \<bar>x_new - ss_x s\<bar>;
                  s1 = s\<lparr>ss_rows := ss_rows s @
                         [\<lparr>sc_iter = k, sc_x_km1 = ss_x_prev s, sc_x_k = ss_x s,
                           sc_x_kp1 = x_new, sc_fx_k = ss_fx s, sc_erro = err\<rparr>]\<rparr>
              in if \<bar>ss_fx s\<bar> < tol \<or> err < tol then Break (s1\<lparr>ss_x := x_new\<rparr>)
                 else (case safe_eval f_expr x_new of
                         Inl e \<Rightarrow> Raise e
                       | Inr f_new \<Rightarrow>
                          Continue (s1\<lparr>ss_x_prev := ss_x s, ss_f_prev := ss_fx s,
                                       ss_x := x_new, ss_fx := f_new\<rparr>)))"

text \<open>
  \<open>secante_next s\<close> is the \<open>x_new\<close> of a pass that starts in \<open>s\<close>, and
  \<open>secante_failed_eval f tol s\<close> says that the pass gets as far as
  \<open>safe_eval(f_expr, x_new)\<close> (no zero denominator, no \<open>break\<close>) and that this
  evaluation raises.
\<close>

definition secante_next :: "secante_state \<Rightarrow> real" where
  "secante_next s = ss_x s - ss_fx s * (ss_x s - ss_x_prev s) / (ss_fx s - ss_f_prev s)"

definition secante_failed_eval :: "expr \<Rightarrow> real \<Rightarrow> secante_state \<Rightarrow> bool" where
  "secante_failed_eval f_expr tol s \<longleftrightarrow>
     ss_fx s \<noteq> ss_f_prev s \<and>
     \<not> (\<bar>ss_fx s\<bar> < tol \<or> \<bar>secante_next s - ss_x s\<bar> < tol) \<and>
     f_expr (secante_next s) = None"

definition secante_start :: "expr \<Rightarrow> real \<Rightarrow> real \<Rightarrow> error + secante_state" where
  "secante_start f_expr x0 x1 =
     (case safe_eval f_expr x0 of
        Inl e \<Rightarrow> Inl e
      | Inr f_prev \<Rightarrow>
         (case safe_eval f_expr x1 of
            Inl e \<Rightarrow> Inl e
          | Inr fx \<Rightarrow>
             Inr \<lparr>ss_x_prev = x0, ss_x = x1, ss_f_prev = f_prev, ss_fx = fx,
                  ss_rows = []\<rparr>))"

definition secante_loop :: "expr \<Rightarrow> real \<Rightarrow> real \<Rightarrow> real \<Rightarrow> int \<Rightarrow> error + secante_state" where
  "secante_loop f_expr x0 x1 tol max_iter =
     (case secante_start f_expr x0 x1 of
        Inl e \<Rightarrow> Inl e
      | Inr s0 \<Rightarrow> for_range (secante_body f_expr tol) (nat max_iter) 1 s0)"

definition secante_passes ::
  "expr \<Rightarrow> real \<Rightarrow> real \<Rightarrow> real \<Rightarrow> int \<Rightarrow> (int \<times> secante_state) list" where
  "secante_passes f_expr x0 x1 tol max_iter =
     (case secante_start f_expr x0 x1 of
        Inl e \<Rightarrow> []
      | Inr s0 \<Rightarrow> reached (secante_body f_expr tol) (nat max_iter) 1 s0)"

definition secante :: "expr \<Rightarrow> real \<Rightarrow> real \<Rightarrow> real \<Rightarrow> int \<Rightarrow> error + secante_row list" where
  "secante f_expr x0 x1 tol max_iter =
     map_sum id ss_rows (secante_loop f_expr x0 x1 tol max_iter)"

subsection \<open>Properties of rows\<close>

text \<open>
  \<open>sign_change f a b\<close>: both values exist and \<open>f(a) * f(b) \<le> 0\<close>; the strict variant
  asks for \<open>< 0\<close>, \<open>positive_product\<close> for \<open>> 0\<close> (exact products).  \<open>bracket_inv\<close> is the loop invariant of the bracketing methods for runs
  in which the product of the update test cannot underflow.
\<close>

definition sign_change :: "expr \<Rightarrow> real \<Rightarrow> real \<Rightarrow> bool" where
  "sign_change f a b =
     (case f a of None \<Rightarrow> False
      | Some va \<Rightarrow> (case f b of None \<Rightarrow> False | Some vb \<Rightarrow> va * vb \<le> 0))"

definition strict_sign_change :: "expr \<Rightarrow> real \<Rightarrow> real \<Rightarrow> bool" where
  "strict_sign_change f a b =
     (case f a of None \<Rightarrow> False
      | Some va \<Rightarrow> (case f b of None \<Rightarrow> False | Some vb \<Rightarrow> va * vb < 0))"

definition positive_product :: "expr \<Rightarrow> real \<Rightarrow> real \<Rightarrow> bool" where
  "positive_product f a b =
     (case f a of None \<Rightarrow> False
      | Some va \<Rightarrow> (case f b of None \<Rightarrow> False | Some vb \<Rightarrow> va * vb > 0))"

definition rows_sign_change :: "expr \<Rightarrow> bracket_row list \<Rightarrow> bool" where
  "rows_sign_change f rows = list_all (\<lambda>r. sign_change f (r_a r) (r_b r)) rows"

definition bracket_inv :: "expr \<Rightarrow> real \<Rightarrow> bracket_state \<Rightarrow> bool" where
  "bracket_inv f tol s \<longleftrightarrow>
     f (bs_a s) = Some (bs_fa s) \<and> f (bs_b s) = Some (bs_fb s) \<and>
     bs_fa s * bs_fb s < 0 \<and> underflow_bound < \<bar>bs_fa s\<bar> * tol \<and>
     rows_sign_change f (bs_rows s)"

section \<open>The for loop\<close>

lemma for_range_raises_iff:
  "for_range body n k s = Inl e \<longleftrightarrow> (\<exists>p \<in> set (reached body n k s). body (fst p) (snd p) = Raise e)"
proof (induction n arbitrary: k s)
  case 0
  show ?case by simp
next
  case (Suc n)
  show ?case
  proof (cases "body k s")
    case (Raise e')
    then show ?thesis by auto
  next
    case (Break s')
    then show ?thesis by simp
  next
    case (Continue s')
    then show ?thesis using Suc.IH [of "k + 1" s'] by simp
  qed
qed

lemma for_range_rule:
  assumes "for_range body n k s = Inr t"
    and "I k s"
    and "\<And>k s s'. I k s \<Longrightarrow> body k s = Continue s' \<Longrightarrow> I (k + 1) s'"
    and "\<And>k s s'. I k s \<Longrightarrow> body k s = Break s' \<Longrightarrow> Q s'"
    and "\<And>k s. I k s \<Longrightarrow> Q s"
  shows "Q t"
  using assms(1,2)
proof (induction n arbitrary: k s)
  case 0
  then show ?case using assms(5) by simp
next
  case (Suc n)
  show ?case
  proof (cases "body k s")
    case (Raise e')
    then show ?thesis using Suc.prems by simp
  next
    case (Break s')
    then show ?thesis using Suc.prems assms(4) by simp
  next
    case (Continue s')
    then show ?thesis using Suc.prems Suc.IH [of "k + 1" s'] assms(3) by simp
  qed
qed

lemma for_range_count:
  assumes "for_range body n k s = Inr t"
    and "\<And>k s s'. body k s = Continue s' \<or> body k s = Break s' \<Longrightarrow> m s' = Suc (m s)"
  shows "m s \<le> m t \<and> m t \<le> m s + n \<and> (0 < n \<longrightarrow> m s < m t)"
  using assms(1)
proof (induction n arbitrary: k s)
  case 0
  then show ?case by simp
next
  case (Suc n)
  show ?case
  proof (cases "body k s")
    case (Raise e')
    then show ?thesis using Suc.prems by simp
  next
    case (Break s')
    then show ?thesis using Suc.prems assms(2) [of k s s'] by simp
  next
    case (Continue s')
    then have "for_range body n (k + 1) s' = Inr t" using Suc.prems by simp
    from Suc.IH [OF this] assms(2) [of k s s'] Continue show ?thesis by simp
  qed
qed

section \<open>The sign test of the bracketing methods\<close>

lemma bisseccao_body_raise:
  "bisseccao_body f tol k s = Raise e \<Longrightarrow> e = EvalValueError"
  by (auto simp: bisseccao_body_def bracket_step_def safe_eval_def Let_def
           split: option.splits if_splits)

lemma regula_falsi_body_raise:
  "regula_falsi_body f tol k s = Raise e \<Longrightarrow> e = EvalValueError \<or> e = ZeroDivisionError"
  by (auto simp: regula_falsi_body_def bracket_step_def safe_eval_def Let_def
           split: option.splits if_splits)

lemma underflow_bound_pos: "0 < underflow_bound"
  by (simp add: underflow_bound_def)

lemma float_mul_pos_iff: "0 < float_mul x y \<longleftrightarrow> underflow_bound < x * y"
  unfolding float_mul_def using underflow_bound_pos
  by (cases "\<bar>x * y\<bar> \<le> underflow_bound") (simp_all only: if_True if_False, linarith+)

lemma float_mul_neg_iff: "float_mul x y < 0 \<longleftrightarrow> x * y < - underflow_bound"
  unfolding float_mul_def using underflow_bound_pos
  by (cases "\<bar>x * y\<bar> \<le> underflow_bound") (simp_all only: if_True if_False, linarith+)

lemma bracket_method_precondition:
  assumes "\<And>k s. body f tol k s \<noteq> Raise BracketValueError"
  shows "bracket_method body f a b tol max_iter = Inl BracketValueError \<longleftrightarrow>
         (\<exists>fa fb. f a = Some fa \<and> f b = Some fb \<and> float_mul fa fb > 0)"
  using assms
  by (auto simp: bracket_method_def bracket_start_def safe_eval_def for_range_raises_iff
           split: option.splits)

text \<open>
  What the sign test does: bisection and regula falsi raise its \<open>ValueError\<close> exactly
  when both endpoint evaluations succeed and the double product is positive, that is,
  when the exact product exceeds \<open>2^-1075\<close>.  The error implies \<open>f(a) * f(b) > 0\<close>,
  and \<open>f(a) * f(b) \<le> 0\<close> never raises it; the converse fails for products that
  underflow.
\<close>

lemma bracket_precondition_float:
  "(bisseccao f a b tol max_iter = Inl BracketValueError \<longleftrightarrow>
      (\<exists>fa fb. f a = Some fa \<and> f b = Some fb \<and> underflow_bound < fa * fb)) \<and>
   (regula_falsi f a b tol max_iter = Inl BracketValueError \<longleftrightarrow>
      (\<exists>fa fb. f a = Some fa \<and> f b = Some fb \<and> underflow_bound < fa * fb))"
proof -
  have 1: "\<And>k s. bisseccao_body f tol k s \<noteq> Raise BracketValueError"
    using bisseccao_body_raise by fastforce
  have 2: "\<And>k s. regula_falsi_body f tol k s \<noteq> Raise BracketValueError"
    using regula_falsi_body_raise by fastforce
  have m: "\<And>r :: error + bracket_state.
      map_sum id bs_rows r = Inl BracketValueError \<longleftrightarrow> r = Inl BracketValueError"
    by (case_tac r) auto
  show ?thesis
    unfolding bisseccao_def regula_falsi_def m
    using bracket_method_precondition [of bisseccao_body, OF 1]
          bracket_method_precondition [of regula_falsi_body, OF 2]
    by (simp only: float_mul_pos_iff)
qed

text \<open>
  Claim C1.  The claim asks for the error whenever \<open>f(a) * f(b) > 0\<close>.  For \<open>f(x) = x\<close>,
  \<open>a = 2^-600\<close>, \<open>b = 2^-599\<close> both values are positive, the double product
  \<open>2^-1199\<close> underflows to \<open>0.0\<close>, the test \<open>fa * fb > 0\<close> is false, and bisection
  returns one row (\<open>c = 3 * 2^-601\<close>, \<open>|f(c)| < tol\<close>) instead of raising.
\<close>

theorem bisseccao_sign_test_underflow:
  "positive_product (\<lambda>x. Some x) (1 / 2 ^ 600) (1 / 2 ^ 599) \<and>
   bisseccao (\<lambda>x. Some x) (1 / 2 ^ 600) (1 / 2 ^ 599) (1 / 1000000) 100 =
     Inr [\<lparr>r_iter = 1, r_a = 1 / 2 ^ 600, r_b = 1 / 2 ^ 599,
           r_x = (1 / 2 ^ 600 + 1 / 2 ^ 599) / 2, r_fx = (1 / 2 ^ 600 + 1 / 2 ^ 599) / 2,
           r_erro = None\<rparr>]"
  by (simp add: positive_product_def bisseccao_def bracket_method_def bracket_start_def
      bisseccao_body_def bracket_step_def safe_eval_def float_mul_def underflow_bound_def
      Let_def eval_nat_numeral)

section \<open>Errors raised inside the loops\<close>

lemma map_sum_Inl_iff: "map_sum id g r = Inl e \<longleftrightarrow> r = Inl e"
  by (cases r) auto

lemma bracket_method_raises_iff:
  "bracket_method body f a b tol max_iter = Inl e \<longleftrightarrow>
     bracket_start f a b = Inl e \<or>
     (\<exists>p \<in> set (bracket_passes body f a b tol max_iter). body f tol (fst p) (snd p) = Raise e)"
  by (cases "bracket_start f a b")
    (simp_all add: bracket_method_def bracket_passes_def for_range_raises_iff)

text \<open>
  Claim C2.  Whenever a pass of the regula falsi loop starts with \<open>fb = fa\<close>, the division
  of the interpolation step raises and the invocation ends in \<open>ZeroDivisionError\<close>, which
  is not the error of the sign test; no list of rows (so no row holding an infinite or
  undefined estimate) is returned.
\<close>

theorem regula_falsi_equal_values_raise:
  assumes "p \<in> set (bracket_passes regula_falsi_body f a b tol max_iter)"
    and "bs_fb (snd p) = bs_fa (snd p)"
  shows "regula_falsi f a b tol max_iter = Inl ZeroDivisionError \<and>
         regula_falsi f a b tol max_iter \<noteq> Inl BracketValueError \<and>
         (\<forall>rows. regula_falsi f a b tol max_iter \<noteq> Inr rows)"
proof -
  have "regula_falsi_body f tol (fst p) (snd p) = Raise ZeroDivisionError"
    using assms(2) by (simp add: regula_falsi_body_def)
  then have "bracket_method regula_falsi_body f a b tol max_iter = Inl ZeroDivisionError"
    using assms(1) bracket_method_raises_iff by blast
  then show ?thesis by (simp add: regula_falsi_def)
qed

theorem regula_falsi_equal_values_raise_witness:
  "regula_falsi (\<lambda>x. Some 0) 0 1 (1 / 1000000) 100 = Inl ZeroDivisionError"
proof -
  let ?s = "\<lparr>bs_a = 0, bs_b = 1, bs_fa = 0, bs_fb = 0, bs_x_prev = None, bs_rows = []\<rparr>"
  have "(1, ?s) \<in> set (bracket_passes regula_falsi_body (\<lambda>x. Some 0) 0 1 (1 / 1000000) 100)"
    by (simp add: bracket_passes_def bracket_start_def safe_eval_def regula_falsi_body_def
        float_mul_def underflow_bound_def eval_nat_numeral)
  from regula_falsi_equal_values_raise [OF this] show ?thesis by simp
qed

lemma newton_raises_iff:
  "newton f df x0 tol max_iter = Inl e \<longleftrightarrow>
     (\<exists>p \<in> set (newton_passes f df x0 tol max_iter). newton_body f df tol (fst p) (snd p) = Raise e)"
  by (simp add: newton_def newton_loop_def newton_passes_def map_sum_Inl_iff for_range_raises_iff)

lemma newton_body_zero_division:
  "newton_body f df tol k s = Raise ZeroDivisionError \<longleftrightarrow>
     (\<exists>fx. f (ns_x s) = Some fx) \<and> df (ns_x s) = Some 0"
  by (auto simp: newton_body_def safe_eval_def Let_def split: option.splits)

lemma newton_body_eval_error:
  "newton_body f df tol k s = Raise EvalValueError \<longleftrightarrow>
     f (ns_x s) = None \<or> df (ns_x s) = None"
  by (auto simp: newton_body_def safe_eval_def Let_def split: option.splits)

lemma newton_body_bracket_error:
  "newton_body f df tol k s \<noteq> Raise BracketValueError"
  by (auto simp: newton_body_def safe_eval_def Let_def split: option.splits)

lemma newton_body_no_raise:
  "(\<forall>e. newton_body f df tol k s \<noteq> Raise e) \<longleftrightarrow>
     (\<exists>fx. f (ns_x s) = Some fx) \<and> (\<exists>dfx. df (ns_x s) = Some dfx \<and> dfx \<noteq> 0)"
  by (auto simp: newton_body_def safe_eval_def Let_def split: option.splits)

lemma returns_iff_no_error: "(\<exists>y. r = Inr y) \<longleftrightarrow> (\<forall>e. r \<noteq> Inl e)"
  by (cases r) auto

text \<open>
  Claim C3, as amended.  Newton's method ends in \<open>ZeroDivisionError\<close> exactly when some
  pass of its loop starts at an iterate \<open>x\<close> where \<open>f(x)\<close> evaluates and \<open>f'(x)\<close>
  evaluates to exactly 0.  It ends in the evaluation error exactly when some pass starts
  at an iterate where \<open>f(x)\<close> or \<open>f'(x)\<close> fails to evaluate.  Otherwise, that is when
  every pass evaluates both and finds a nonzero derivative, the list of rows is
  returned.
\<close>

theorem newton_zero_derivative_iff:
  "(newton f df x0 tol max_iter = Inl ZeroDivisionError \<longleftrightarrow>
      (\<exists>p \<in> set (newton_passes f df x0 tol max_iter).
          (\<exists>fx. f (ns_x (snd p)) = Some fx) \<and> df (ns_x (snd p)) = Some 0)) \<and>
   (newton f df x0 tol max_iter = Inl EvalValueError \<longleftrightarrow>
      (\<exists>p \<in> set (newton_passes f df x0 tol max_iter).
          f (ns_x (snd p)) = None \<or> df (ns_x (snd p)) = None)) \<and>
   ((\<exists>rows. newton f df x0 tol max_iter = Inr rows) \<longleftrightarrow>
      (\<forall>p \<in> set (newton_passes f df x0 tol max_iter).
          (\<exists>fx. f (ns_x (snd p)) = Some fx) \<and>
          (\<exists>dfx. df (ns_x (snd p)) = Some dfx \<and> dfx \<noteq> 0)))"
proof -
  have a: "newton f df x0 tol max_iter = Inl ZeroDivisionError \<longleftrightarrow>
      (\<exists>p \<in> set (newton_passes f df x0 tol max_iter).
          (\<exists>fx. f (ns_x (snd p)) = Some fx) \<and> df (ns_x (snd p)) = Some 0)"
    by (simp add: newton_raises_iff newton_body_zero_division)
  have b: "newton f df x0 tol max_iter = Inl EvalValueError \<longleftrightarrow>
      (\<exists>p \<in> set (newton_passes f df x0 tol max_iter).
          f (ns_x (snd p)) = None \<or> df (ns_x (snd p)) = None)"
    by (simp add: newton_raises_iff newton_body_eval_error)
  have "(\<exists>rows. newton f df x0 tol max_iter = Inr rows) \<longleftrightarrow>
      (\<forall>p \<in> set (newton_passes f df x0 tol max_iter).
          \<forall>e. newton_body f df tol (fst p) (snd p) \<noteq> Raise e)"
    unfolding returns_iff_no_error newton_raises_iff by blast
  then have c: "(\<exists>rows. newton f df x0 tol max_iter = Inr rows) \<longleftrightarrow>
      (\<forall>p \<in> set (newton_passes f df x0 tol max_iter).
          (\<exists>fx. f (ns_x (snd p)) = Some fx) \<and>
          (\<exists>dfx. df (ns_x (snd p)) = Some dfx \<and> dfx \<noteq> 0))"
    by (simp only: newton_body_no_raise)
  show ?thesis by (intro conjI) (rule a, rule b, rule c)
qed

theorem newton_zero_derivative_iff_witness:
  "newton (\<lambda>x. Some (x * x + 1)) (\<lambda>x. Some (2 * x)) 1 (1 / 10) 5 = Inl ZeroDivisionError \<and>
   (\<exists>rows. newton (\<lambda>x. Some (x * x - 2)) (\<lambda>x. Some 1) 1 (1 / 10) 2 = Inr rows)"
proof -
  let ?f = "\<lambda>x::real. Some (x * x + 1)" and ?df = "\<lambda>x::real. Some (2 * x)"
  let ?s = "\<lparr>ns_x = 0, ns_rows = [\<lparr>nw_iter = 1, nw_x = 0, nw_fx = 2, nw_dfx = 2, nw_erro = 1\<rparr>]\<rparr>"
  have "(2, ?s) \<in> set (newton_passes ?f ?df 1 (1 / 10) 5)"
    by (simp add: newton_passes_def newton_body_def safe_eval_def eval_nat_numeral)
  then have 1: "newton ?f ?df 1 (1 / 10) 5 = Inl ZeroDivisionError"
    using newton_zero_derivative_iff [of ?f ?df 1 "1 / 10" 5, THEN conjunct1] by force
  have "\<forall>p \<in> set (newton_passes (\<lambda>x. Some (x * x - 2)) (\<lambda>x. Some 1) 1 (1 / 10) 2).
          (\<exists>fx. (\<lambda>x. Some (x * x - 2)) (ns_x (snd p)) = Some fx) \<and>
          (\<exists>dfx. (\<lambda>x::real. Some (1::real)) (ns_x (snd p)) = Some dfx \<and> dfx \<noteq> 0)"
    by simp
  then have 2: "\<exists>rows. newton (\<lambda>x. Some (x * x - 2)) (\<lambda>x. Some 1) 1 (1 / 10) 2 = Inr rows"
    using newton_zero_derivative_iff [of "\<lambda>x. Some (x * x - 2)" "\<lambda>x. Some 1" 1 "1 / 10" 2,
        THEN conjunct2, THEN conjunct2]
    by blast
  from 1 2 show ?thesis by blast
qed

text \<open>
  The claim as worded fails where an evaluation fails.  With \<open>f = log(x)\<close>, \<open>f' = 0\<close>
  and \<open>x0 = -1\<close> the loop reaches the iterate \<open>-1\<close>, where \<open>f'\<close> is 0, but
  \<open>f(-1)\<close> raises first: the invocation ends in the evaluation error, neither in
  \<open>ZeroDivisionError\<close> nor with a list of rows.
\<close>

theorem newton_zero_derivative_counterexample:
  "newton (\<lambda>x. if x \<le> 0 then None else Some (ln x)) (\<lambda>x. Some 0) (- 1) (1 / 1000000) 100 =
     Inl EvalValueError \<and>
   (1, \<lparr>ns_x = - 1, ns_rows = []\<rparr>) \<in>
     set (newton_passes (\<lambda>x. if x \<le> 0 then None else Some (ln x)) (\<lambda>x. Some 0) (- 1)
            (1 / 1000000) 100) \<and>
   (\<lambda>x::real. Some (0::real)) (- 1) = Some 0"
  by (simp add: newton_def newton_loop_def newton_passes_def newton_body_def safe_eval_def
      eval_nat_numeral)

lemma secante_raises_iff:
  "secante f x0 x1 tol max_iter = Inl e \<longleftrightarrow>
     secante_start f x0 x1 = Inl e \<or>
     (\<exists>p \<in> set (secante_passes f x0 x1 tol max_iter). secante_body f tol (fst p) (snd p) = Raise e)"
  by (cases "secante_start f x0 x1")
    (simp_all add: secante_def secante_loop_def secante_passes_def map_sum_Inl_iff
      for_range_raises_iff)

lemma secante_start_error: "secante_start f x0 x1 = Inl e \<Longrightarrow> e = EvalValueError"
  by (auto simp: secante_start_def safe_eval_def split: option.splits)

lemma secante_start_total:
  "f x0 \<noteq> None \<Longrightarrow> f x1 \<noteq> None \<Longrightarrow> \<exists>s. secante_start f x0 x1 = Inr s"
  by (auto simp: secante_start_def safe_eval_def split: option.splits)

lemma secante_body_zero_division:
  "secante_body f tol k s = Raise ZeroDivisionError \<longleftrightarrow> ss_fx s = ss_f_prev s"
  by (auto simp: secante_body_def safe_eval_def Let_def split: option.splits)

lemma secante_body_other_error:
  "secante_body f tol k s = Raise e \<Longrightarrow> e \<noteq> ZeroDivisionError \<Longrightarrow>
     e = EvalValueError \<and> (\<exists>x. f x = None)"
  by (auto simp: secante_body_def safe_eval_def Let_def split: option.splits if_splits)

lemma secante_start_Inl_iff:
  "secante_start f x0 x1 = Inl e \<longleftrightarrow> e = EvalValueError \<and> (f x0 = None \<or> f x1 = None)"
  by (auto simp: secante_start_def safe_eval_def split: option.splits)

lemma secante_body_eval_error:
  "secante_body f tol k s = Raise EvalValueError \<longleftrightarrow> secante_failed_eval f tol s"
  by (auto simp: secante_body_def secante_failed_eval_def secante_next_def safe_eval_def
      Let_def split: option.splits)

lemma secante_body_raise_cases:
  "secante_body f tol k s = Raise e \<Longrightarrow> e = ZeroDivisionError \<or> e = EvalValueError"
  by (auto simp: secante_body_def safe_eval_def Let_def split: option.splits if_splits)

lemma secante_body_no_raise:
  "(\<forall>e. secante_body f tol k s \<noteq> Raise e) \<longleftrightarrow>
     ss_fx s \<noteq> ss_f_prev s \<and> \<not> secante_failed_eval f tol s"
proof
  assume "\<forall>e. secante_body f tol k s \<noteq> Raise e"
  then show "ss_fx s \<noteq> ss_f_prev s \<and> \<not> secante_failed_eval f tol s"
    using secante_body_zero_division [of f tol k s] secante_body_eval_error [of f tol k s]
    by blast
next
  assume "ss_fx s \<noteq> ss_f_prev s \<and> \<not> secante_failed_eval f tol s"
  then show "\<forall>e. secante_body f tol k s \<noteq> Raise e"
    using secante_body_zero_division [of f tol k s] secante_body_eval_error [of f tol k s]
      secante_body_raise_cases [of f tol k s]
    by blast
qed

lemma secante_passes_start_error:
  "secante_start f x0 x1 = Inl e \<Longrightarrow> secante_passes f x0 x1 tol max_iter = []"
  by (simp add: secante_passes_def)

text \<open>
  Claim C4, as amended.  The secant method ends in \<open>ZeroDivisionError\<close> exactly when
  some pass of its loop starts with equal maintained function values,
  \<open>denom = fx - f_prev = 0\<close>.  It ends in the evaluation error exactly when \<open>f(x0)\<close>
  or \<open>f(x1)\<close> fails to evaluate, or some pass goes on to evaluate \<open>f(x_new)\<close> and
  that fails.  Otherwise, that is when neither happens, the list of rows is returned.
\<close>

theorem secante_zero_denominator_iff:
  "(secante f x0 x1 tol max_iter = Inl ZeroDivisionError \<longleftrightarrow>
      (\<exists>p \<in> set (secante_passes f x0 x1 tol max_iter). ss_fx (snd p) - ss_f_prev (snd p) = 0)) \<and>
   (secante f x0 x1 tol max_iter = Inl EvalValueError \<longleftrightarrow>
      f x0 = None \<or> f x1 = None \<or>
      (\<exists>p \<in> set (secante_passes f x0 x1 tol max_iter). secante_failed_eval f tol (snd p))) \<and>
   ((\<exists>rows. secante f x0 x1 tol max_iter = Inr rows) \<longleftrightarrow>
      f x0 \<noteq> None \<and> f x1 \<noteq> None \<and>
      (\<forall>p \<in> set (secante_passes f x0 x1 tol max_iter).
          ss_fx (snd p) \<noteq> ss_f_prev (snd p) \<and> \<not> secante_failed_eval f tol (snd p)))"
proof -
  have a: "secante f x0 x1 tol max_iter = Inl ZeroDivisionError \<longleftrightarrow>
      (\<exists>p \<in> set (secante_passes f x0 x1 tol max_iter). ss_fx (snd p) - ss_f_prev (snd p) = 0)"
    by (simp add: secante_raises_iff secante_body_zero_division secante_start_Inl_iff)
  have b: "secante f x0 x1 tol max_iter = Inl EvalValueError \<longleftrightarrow>
      f x0 = None \<or> f x1 = None \<or>
      (\<exists>p \<in> set (secante_passes f x0 x1 tol max_iter). secante_failed_eval f tol (snd p))"
    by (simp add: secante_raises_iff secante_body_eval_error secante_start_Inl_iff disj_assoc)
  have c: "(\<exists>rows. secante f x0 x1 tol max_iter = Inr rows) \<longleftrightarrow>
      f x0 \<noteq> None \<and> f x1 \<noteq> None \<and>
      (\<forall>p \<in> set (secante_passes f x0 x1 tol max_iter).
          ss_fx (snd p) \<noteq> ss_f_prev (snd p) \<and> \<not> secante_failed_eval f tol (snd p))"
  proof -
    have "(\<exists>rows. secante f x0 x1 tol max_iter = Inr rows) \<longleftrightarrow>
        (\<forall>e. secante_start f x0 x1 \<noteq> Inl e) \<and>
        (\<forall>p \<in> set (secante_passes f x0 x1 tol max_iter).
            \<forall>e. secante_body f tol (fst p) (snd p) \<noteq> Raise e)"
      unfolding returns_iff_no_error secante_raises_iff by blast
    also have "(\<forall>e. secante_start f x0 x1 \<noteq> Inl e) \<longleftrightarrow> f x0 \<noteq> None \<and> f x1 \<noteq> None"
      by (auto simp: secante_start_Inl_iff)
    finally show ?thesis by (simp only: secante_body_no_raise conj_assoc)
  qed
  show ?thesis by (intro conjI) (rule a, rule b, rule c)
qed

theorem secante_zero_denominator_iff_witness:
  "secante (\<lambda>x. Some (x * x)) (- 1) 1 (1 / 10) 5 = Inl ZeroDivisionError \<and>
   (\<exists>rows. secante (\<lambda>x. Some (x * x - 2)) 1 2 (1 / 10) 1 = Inr rows)"
proof -
  let ?f = "\<lambda>x::real. Some (x * x)" and ?g = "\<lambda>x::real. Some (x * x - 2)"
  let ?s = "\<lparr>ss_x_prev = - 1, ss_x = 1, ss_f_prev = 1, ss_fx = 1, ss_rows = []\<rparr>"
  have "(1, ?s) \<in> set (secante_passes ?f (- 1) 1 (1 / 10) 5)"
    by (simp add: secante_passes_def secante_start_def safe_eval_def eval_nat_numeral)
  then have 1: "secante ?f (- 1) 1 (1 / 10) 5 = Inl ZeroDivisionError"
    using secante_zero_denominator_iff [of ?f "- 1" 1 "1 / 10" 5, THEN conjunct1] by force
  have "?g 1 \<noteq> None \<and> ?g 2 \<noteq> None \<and>
      (\<forall>p \<in> set (secante_passes ?g 1 2 (1 / 10) 1).
          ss_fx (snd p) \<noteq> ss_f_prev (snd p) \<and> \<not> secante_failed_eval ?g (1 / 10) (snd p))"
    by (simp add: secante_passes_def secante_start_def secante_failed_eval_def safe_eval_def)
  then have 2: "\<exists>rows. secante ?g 1 2 (1 / 10) 1 = Inr rows"
    using secante_zero_denominator_iff [of ?g 1 2 "1 / 10" 1, THEN conjunct2, THEN conjunct2]
    by blast
  from 1 2 show ?thesis by blast
qed

text \<open>
  The claim as worded fails where the evaluation of \<open>f(x_new)\<close> fails.  With
  \<open>f = 0*sqrt(x) + x^2 + 1\<close> (undefined for \<open>x < 0\<close>), \<open>x0 = 0\<close>, \<open>x1 = 1\<close> the only
  pass starts with \<open>f_prev = 1\<close>, \<open>fx = 2\<close>, which are not equal, computes
  \<open>x_new = -1\<close> and fails to evaluate \<open>f(-1)\<close>: no \<open>ZeroDivisionError\<close>, and no list of
  rows either.
\<close>

theorem secante_zero_denominator_counterexample:
  "secante (\<lambda>x. if x < 0 then None else Some (x * x + 1)) 0 1 (1 / 1000000) 100 =
     Inl EvalValueError \<and>
   secante_passes (\<lambda>x. if x < 0 then None else Some (x * x + 1)) 0 1 (1 / 1000000) 100 =
     [(1, \<lparr>ss_x_prev = 0, ss_x = 1, ss_f_prev = 1, ss_fx = 2, ss_rows = []\<rparr>)]"
  by (simp add: secante_def secante_loop_def secante_passes_def secante_start_def
      secante_body_def safe_eval_def Let_def eval_nat_numeral)

text \<open>
  Claim C10.  The zero tests come first in the loop bodies: a pass of the secant loop that
  starts with \<open>fx = f_prev\<close> raises \<open>ZeroDivisionError\<close>, and so does a pass of
  Newton's loop at an \<open>x\<close> with \<open>f'(x) = 0\<close>, for every tolerance and every value of
  \<open>f(x)\<close>.  Hence, when the loop runs at all (\<open>max_iter \<ge> 1\<close>), the secant method
  raises whenever \<open>f(x0) = f(x1)\<close>, also when both values are 0 and
  \<open>|f(x1)| < tol\<close>, and Newton's method raises whenever \<open>f'(x0) = 0\<close>, also when
  \<open>|f(x0)| < tol\<close>.
\<close>

theorem zero_checks_precede_convergence_test:
  "(ss_fx s = ss_f_prev s \<longrightarrow> secante_body f tol k s = Raise ZeroDivisionError) \<and>
   (f (ns_x t) = Some fx \<and> df (ns_x t) = Some 0 \<longrightarrow>
      newton_body f df tol k t = Raise ZeroDivisionError) \<and>
   (1 \<le> max_iter \<and> f x0 = Some v \<and> f x1 = Some v \<longrightarrow>
      secante f x0 x1 tol max_iter = Inl ZeroDivisionError) \<and>
   (1 \<le> max_iter \<and> f x0 = Some fx \<and> df x0 = Some 0 \<longrightarrow>
      newton f df x0 tol max_iter = Inl ZeroDivisionError)"
proof -
  have a: "ss_fx s = ss_f_prev s \<longrightarrow> secante_body f tol k s = Raise ZeroDivisionError"
    by (simp add: secante_body_def)
  have b: "f (ns_x t) = Some fx \<and> df (ns_x t) = Some 0 \<longrightarrow>
      newton_body f df tol k t = Raise ZeroDivisionError"
    by (simp add: newton_body_def safe_eval_def)
  have c: "secante f x0 x1 tol max_iter = Inl ZeroDivisionError"
    if "1 \<le> max_iter \<and> f x0 = Some v \<and> f x1 = Some v"
  proof -
    from that obtain n where n: "nat max_iter = Suc n" by (cases "nat max_iter") auto
    from that show ?thesis
      by (simp add: secante_def secante_loop_def secante_start_def secante_body_def
          safe_eval_def n)
  qed
  have d: "newton f df x0 tol max_iter = Inl ZeroDivisionError"
    if "1 \<le> max_iter \<and> f x0 = Some fx \<and> df x0 = Some 0"
  proof -
    from that obtain n where n: "nat max_iter = Suc n" by (cases "nat max_iter") auto
    from that show ?thesis
      by (simp add: newton_def newton_loop_def newton_body_def safe_eval_def n)
  qed
  from a b c d show ?thesis by blast
qed


theorem zero_checks_precede_convergence_test_witness:
  "secante (\<lambda>x. Some (x * x - 1)) (- 1) 1 (1 / 1000000) 100 = Inl ZeroDivisionError \<and>
   newton (\<lambda>x. Some (x * x)) (\<lambda>x. Some (2 * x)) 0 (1 / 1000000) 100 = Inl ZeroDivisionError"
  using zero_checks_precede_convergence_test [where max_iter = 100 and f = "\<lambda>x. Some (x * x - 1)" and ?x0.0 = "- 1"
               and ?x1.0 = 1 and v = 0 and tol = "1 / 1000000"]
    zero_checks_precede_convergence_test [where max_iter = 100 and f = "\<lambda>x. Some (x * x)" and df = "\<lambda>x. Some (2 * x)"
               and ?x0.0 = 0 and fx = 0 and tol = "1 / 1000000"]
  by simp


section \<open>The order of update and convergence test in Newton's method\<close>

lemma for_range_breaks:
  "p \<in> set (reached body n k s) \<Longrightarrow> body (fst p) (snd p) = Break s' \<Longrightarrow>
     for_range body n k s = Inr s'"
proof (induction n arbitrary: k s)
  case 0
  then show ?case by simp
next
  case (Suc n)
  show ?case
  proof (cases "p = (k, s)")
    case True
    then show ?thesis using Suc.prems by simp
  next
    case False
    then obtain s1 where c: "body k s = Continue s1" and "p \<in> set (reached body n (k + 1) s1)"
      using Suc.prems(1) by (cases "body k s") auto
    then show ?thesis using Suc.IH [of "k + 1" s1] Suc.prems(2) by simp
  qed
qed

text \<open>
  Claim C5.  A pass of Newton's loop leaves by \<open>break\<close> exactly when both evaluations
  succeed, the derivative is not 0 and \<open>|f(x)| < tol\<close> or \<open>erro < tol\<close>, with \<open>f(x)\<close>
  taken at the estimate before the update and \<open>erro = |x_new - x|\<close>.  At that point the
  row of the pass is already appended, its \<open>x\<close> field is \<open>x_new\<close>, the variable \<open>x\<close> has
  been set to \<open>x_new\<close>, and the rows of that state are what the invocation returns.
\<close>

theorem newton_break_order:
  assumes "p \<in> set (newton_passes f df x0 tol max_iter)"
  shows
    "(\<forall>s'. newton_body f df tol (fst p) (snd p) = Break s' \<longrightarrow>
        (\<exists>fx dfx. f (ns_x (snd p)) = Some fx \<and> df (ns_x (snd p)) = Some dfx \<and> dfx \<noteq> 0 \<and>
           (let x = ns_x (snd p); x_new = x - fx / dfx; erro = \<bar>x_new - x\<bar>
            in (\<bar>fx\<bar> < tol \<or> erro < tol) \<and>
               ns_rows s' = ns_rows (snd p) @
                 [\<lparr>nw_iter = fst p, nw_x = x_new, nw_fx = fx, nw_dfx = dfx, nw_erro = erro\<rparr>] \<and>
               ns_x s' = x_new \<and>
               newton_loop f df x0 tol max_iter = Inr s' \<and>
               newton f df x0 tol max_iter = Inr (ns_rows s')))) \<and>
     (\<forall>fx dfx. f (ns_x (snd p)) = Some fx \<and> df (ns_x (snd p)) = Some dfx \<and> dfx \<noteq> 0 \<and>
        (\<bar>fx\<bar> < tol \<or> \<bar>ns_x (snd p) - fx / dfx - ns_x (snd p)\<bar> < tol) \<longrightarrow>
        (\<exists>s'. newton_body f df tol (fst p) (snd p) = Break s'))"
proof -
  have a: "newton_loop f df x0 tol max_iter = Inr s' \<and> newton f df x0 tol max_iter = Inr (ns_rows s')"
    if "newton_body f df tol (fst p) (snd p) = Break s'" for s'
    using for_range_breaks [OF assms [unfolded newton_passes_def] that]
    by (simp add: newton_def newton_loop_def)
  have b: "\<exists>fx dfx. f (ns_x (snd p)) = Some fx \<and> df (ns_x (snd p)) = Some dfx \<and> dfx \<noteq> 0 \<and>
           (let x = ns_x (snd p); x_new = x - fx / dfx; erro = \<bar>x_new - x\<bar>
            in (\<bar>fx\<bar> < tol \<or> erro < tol) \<and>
               ns_rows s' = ns_rows (snd p) @
                 [\<lparr>nw_iter = fst p, nw_x = x_new, nw_fx = fx, nw_dfx = dfx, nw_erro = erro\<rparr>] \<and>
               ns_x s' = x_new)"
    if "newton_body f df tol (fst p) (snd p) = Break s'" for s'
    using that
    by (auto simp: newton_body_def safe_eval_def Let_def split: option.splits if_splits)
  have c: "\<exists>s'. newton_body f df tol (fst p) (snd p) = Break s'"
    if "f (ns_x (snd p)) = Some fx \<and> df (ns_x (snd p)) = Some dfx \<and> dfx \<noteq> 0 \<and>
        (\<bar>fx\<bar> < tol \<or> \<bar>ns_x (snd p) - fx / dfx - ns_x (snd p)\<bar> < tol)" for fx dfx
    using that by (auto simp: newton_body_def safe_eval_def Let_def)
  show ?thesis
  proof (intro conjI allI impI)
    fix s' assume h: "newton_body f df tol (fst p) (snd p) = Break s'"
    from b [OF h] a [OF h]
    show "\<exists>fx dfx. f (ns_x (snd p)) = Some fx \<and> df (ns_x (snd p)) = Some dfx \<and> dfx \<noteq> 0 \<and>
           (let x = ns_x (snd p); x_new = x - fx / dfx; erro = \<bar>x_new - x\<bar>
            in (\<bar>fx\<bar> < tol \<or> erro < tol) \<and>
               ns_rows s' = ns_rows (snd p) @
                 [\<lparr>nw_iter = fst p, nw_x = x_new, nw_fx = fx, nw_dfx = dfx, nw_erro = erro\<rparr>] \<and>
               ns_x s' = x_new \<and>
               newton_loop f df x0 tol max_iter = Inr s' \<and>
               newton f df x0 tol max_iter = Inr (ns_rows s'))"
      by (simp add: Let_def)
  next
    fix fx dfx
    assume "f (ns_x (snd p)) = Some fx \<and> df (ns_x (snd p)) = Some dfx \<and> dfx \<noteq> 0 \<and>
        (\<bar>fx\<bar> < tol \<or> \<bar>ns_x (snd p) - fx / dfx - ns_x (snd p)\<bar> < tol)"
    then show "\<exists>s'. newton_body f df tol (fst p) (snd p) = Break s'" by (rule c)
  qed
qed


theorem newton_break_order_witness:
  "\<exists>s'. newton_body (\<lambda>x. Some (x * x - 2)) (\<lambda>x. Some (2 * x)) (1 / 10) 2
          \<lparr>ns_x = 3 / 2,
           ns_rows = [\<lparr>nw_iter = 1, nw_x = 3 / 2, nw_fx = - 1, nw_dfx = 2, nw_erro = 1 / 2\<rparr>]\<rparr>
          = Break s' \<and>
        ns_x s' = 17 / 12 \<and>
        newton (\<lambda>x. Some (x * x - 2)) (\<lambda>x. Some (2 * x)) 1 (1 / 10) 5 = Inr (ns_rows s')"
proof -
  let ?f = "\<lambda>x::real. Some (x * x - 2)" and ?df = "\<lambda>x::real. Some (2 * x)"
  let ?s = "\<lparr>ns_x = 3 / 2,
           ns_rows = [\<lparr>nw_iter = 1, nw_x = 3 / 2, nw_fx = - 1, nw_dfx = 2, nw_erro = 1 / 2\<rparr>]\<rparr>"
  have m: "(2, ?s) \<in> set (newton_passes ?f ?df 1 (1 / 10) 5)"
    by (simp add: newton_passes_def newton_body_def safe_eval_def eval_nat_numeral Let_def)
  note t = newton_break_order [OF m, simplified fst_conv snd_conv]
  have "?f (ns_x ?s) = Some (1 / 4) \<and> ?df (ns_x ?s) = Some 3 \<and> (3::real) \<noteq> 0 \<and>
        (\<bar>1 / 4\<bar> < (1 / 10 :: real) \<or> \<bar>ns_x ?s - (1 / 4) / 3 - ns_x ?s\<bar> < 1 / 10)"
    by (simp add: power2_eq_square)
  with t obtain s' where b: "newton_body ?f ?df (1 / 10) 2 ?s = Break s'" by blast
  with t show ?thesis by (auto simp: Let_def)
qed


section \<open>The bracket keeps a sign change\<close>

lemma reached_rule:
  assumes "p \<in> set (reached body n k s)"
    and "I k s"
    and "\<And>k s s'. I k s \<Longrightarrow> body k s = Continue s' \<Longrightarrow> I (k + 1) s'"
  shows "I (fst p) (snd p)"
  using assms(1,2)
proof (induction n arbitrary: k s)
  case 0
  then show ?case by simp
next
  case (Suc n)
  show ?case
  proof (cases "p = (k, s)")
    case True
    then show ?thesis using Suc.prems by simp
  next
    case False
    then obtain s1 where c: "body k s = Continue s1" and "p \<in> set (reached body n (k + 1) s1)"
      using Suc.prems(1) by (cases "body k s") auto
    then show ?thesis using Suc.IH [of "k + 1" s1] assms(3) [OF Suc.prems(2) c] by simp
  qed
qed

lemma bisseccao_body_cases:
  "(\<exists>e. bisseccao_body f tol k s = Raise e) \<or>
   (\<exists>c fc. f c = Some fc \<and> bisseccao_body f tol k s = bracket_step tol k s c fc)"
  by (auto simp: bisseccao_body_def safe_eval_def Let_def split: option.splits)

lemma regula_falsi_body_cases:
  "(\<exists>e. regula_falsi_body f tol k s = Raise e) \<or>
   (\<exists>c fc. f c = Some fc \<and> regula_falsi_body f tol k s = bracket_step tol k s c fc)"
  by (auto simp: regula_falsi_body_def safe_eval_def Let_def split: option.splits)

lemma sign_change_inv: "bracket_inv f tol s \<Longrightarrow> sign_change f (bs_a s) (bs_b s)"
  by (simp add: bracket_inv_def sign_change_def)

lemma bracket_step_break_rows:
  assumes "bracket_step tol k s c fc = Break s'" and "bracket_inv f tol s"
  shows "rows_sign_change f (bs_rows s')"
  using assms sign_change_inv [OF assms(2)]
  by (auto simp: bracket_step_def Let_def bracket_inv_def rows_sign_change_def split: if_splits)

lemma opposite_sign_step:
  fixes fa fb fc :: real
  assumes "fa * fb < 0" and "fc \<noteq> 0" and "\<not> fa * fc < 0"
  shows "fc * fb < 0"
  using assms by (auto simp: mult_less_0_iff not_less zero_le_mult_iff)

lemma no_underflow_step:
  fixes fa fc tol e :: real
  assumes "e < \<bar>fa\<bar> * tol" and "tol \<le> \<bar>fc\<bar>" and "fa * fc < 0"
  shows "fa * fc < - e"
proof -
  have "\<bar>fa\<bar> * tol \<le> \<bar>fa\<bar> * \<bar>fc\<bar>"
    using assms(2) by (simp add: mult_left_mono)
  then have "e < \<bar>fa * fc\<bar>" using assms(1) by (simp add: abs_mult)
  then show ?thesis using assms(3) by simp
qed

lemma bracket_step_continue_inv:
  assumes step: "bracket_step tol k s c fc = Continue s'" and inv: "bracket_inv f tol s"
    and tol: "0 < tol" "underflow_bound < tol * tol" and fc: "f c = Some fc"
  shows "bracket_inv f tol s'"
proof -
  have big: "tol \<le> \<bar>fc\<bar>"
    using step by (auto simp: bracket_step_def Let_def split: if_splits)
  then have nz: "fc \<noteq> 0" using tol(1) by auto
  have fab: "bs_fa s * bs_fb s < 0" and u: "underflow_bound < \<bar>bs_fa s\<bar> * tol"
    using inv by (simp_all add: bracket_inv_def)
  have u': "underflow_bound < \<bar>fc\<bar> * tol"
  proof -
    have "tol * tol \<le> \<bar>fc\<bar> * tol" using big tol(1) by (simp add: mult_right_mono)
    then show ?thesis using tol(2) by simp
  qed
  show ?thesis
  proof (cases "float_mul (bs_fa s) fc < 0")
    case True
    then have "bs_fa s * fc < 0"
      using underflow_bound_pos by (simp add: float_mul_neg_iff)
    with True show ?thesis
      using step inv fc sign_change_inv [OF inv]
      by (auto simp: bracket_step_def Let_def bracket_inv_def rows_sign_change_def
          split: if_splits)
  next
    case False
    then have "\<not> bs_fa s * fc < 0"
      using no_underflow_step [OF u big] by (auto simp: float_mul_neg_iff)
    from opposite_sign_step [OF fab nz this] False u' show ?thesis
      using step inv fc sign_change_inv [OF inv]
      by (auto simp: bracket_step_def Let_def bracket_inv_def rows_sign_change_def
          split: if_splits)
  qed
qed

lemma bracket_start_inv:
  assumes "strict_sign_change f a b" and "bracket_start f a b = Inr s0"
    and "\<exists>fa. f a = Some fa \<and> underflow_bound < \<bar>fa\<bar> * tol"
  shows "bracket_inv f tol s0"
  using assms
  by (auto simp: strict_sign_change_def bracket_start_def safe_eval_def bracket_inv_def
      rows_sign_change_def split: option.splits if_splits)

lemma bracket_method_sign_change:
  assumes cases: "\<And>k s. (\<exists>e. body f tol k s = Raise e) \<or>
        (\<exists>c fc. f c = Some fc \<and> body f tol k s = bracket_step tol k s c fc)"
    and tol: "0 < tol" "underflow_bound < tol * tol"
    and start: "strict_sign_change f a b"
      "\<exists>fa. f a = Some fa \<and> underflow_bound < \<bar>fa\<bar> * tol"
  shows "(\<forall>p \<in> set (bracket_passes body f a b tol max_iter). rows_sign_change f (bs_rows (snd p))) \<and>
         (\<forall>t. bracket_method body f a b tol max_iter = Inr t \<longrightarrow> rows_sign_change f (bs_rows t))"
proof (cases "bracket_start f a b")
  case (Inl e)
  then show ?thesis by (simp add: bracket_passes_def bracket_method_def)
next
  case (Inr s0)
  have i0: "bracket_inv f tol s0" using bracket_start_inv [OF start(1) Inr start(2)] .
  have cont: "bracket_inv f tol s'"
    if "bracket_inv f tol s" "body f tol k s = Continue s'" for k s s'
    using cases [of k s] that bracket_step_continue_inv [OF _ that(1) tol] by auto
  have brk: "rows_sign_change f (bs_rows s')"
    if "bracket_inv f tol s" "body f tol k s = Break s'" for k s s'
    using cases [of k s] that bracket_step_break_rows [OF _ that(1)] by auto
  have 1: "rows_sign_change f (bs_rows (snd p))"
    if "p \<in> set (reached (body f tol) (nat max_iter) 1 s0)" for p
    using reached_rule [where I = "\<lambda>k. bracket_inv f tol", OF that i0 cont]
    by (simp add: bracket_inv_def)
  have 2: "rows_sign_change f (bs_rows t)"
    if "for_range (body f tol) (nat max_iter) 1 s0 = Inr t" for t
    using for_range_rule [where I = "\<lambda>k. bracket_inv f tol"
        and Q = "\<lambda>s. rows_sign_change f (bs_rows s)", OF that i0 cont brk]
    by (simp add: bracket_inv_def)
  from 1 2 show ?thesis by (simp add: bracket_passes_def bracket_method_def Inr)
qed

lemma map_sum_Inr_iff: "map_sum id g r = Inr y \<longleftrightarrow> (\<exists>t. r = Inr t \<and> y = g t)"
  by (cases r) auto

text \<open>
  Where the update keeps the sign change: for \<open>tol > 0\<close> and a bracket with
  \<open>f(a) * f(b) < 0\<close>, every row that bisection or regula falsi appends has
  \<open>f(a) * f(b) \<le> 0\<close>, provided that the product \<open>fa * fc\<close> of the update test cannot
  underflow: \<open>|f(a)| * tol\<close> and \<open>tol * tol\<close> exceed \<open>2^-1075\<close> (a pass that goes on
  has \<open>|fc| \<ge> tol\<close>).
\<close>

lemma bracket_rows_sign_change_no_underflow:
  assumes "0 < tol" and "underflow_bound < tol * tol"
    and "strict_sign_change f a b"
    and "\<exists>fa. f a = Some fa \<and> underflow_bound < \<bar>fa\<bar> * tol"
  shows "(\<forall>rows. bisseccao f a b tol max_iter = Inr rows \<longrightarrow> rows_sign_change f rows) \<and>
         (\<forall>rows. regula_falsi f a b tol max_iter = Inr rows \<longrightarrow> rows_sign_change f rows) \<and>
         (\<forall>p \<in> set (bracket_passes bisseccao_body f a b tol max_iter).
             rows_sign_change f (bs_rows (snd p))) \<and>
         (\<forall>p \<in> set (bracket_passes regula_falsi_body f a b tol max_iter).
             rows_sign_change f (bs_rows (snd p)))"
  using bracket_method_sign_change [of bisseccao_body f tol a b max_iter,
      OF bisseccao_body_cases assms]
    bracket_method_sign_change [of regula_falsi_body f tol a b max_iter,
      OF regula_falsi_body_cases assms]
  by (simp add: bisseccao_def regula_falsi_def map_sum_Inr_iff) blast

text \<open>
  Claim C6.  The claim asks that every recorded bracket keeps \<open>f(a) * f(b) \<le> 0\<close>, and
  the comment on the update in \<open>regula_falsi\<close> says the same (the update keeps the sign
  change).  With \<open>f(x) = -5e-324 if x < 0 else x\<close> (\<open>5e-324 = 2^-1074\<close>), \<open>a = -1\<close>,
  \<open>b = 2\<close>, \<open>tol = 1e-6\<close> the bracket has \<open>f(a) * f(b) < 0\<close>.  In pass 1, \<open>c = 0.5\<close>,
  \<open>fc = 0.5\<close>, and the product \<open>fa * fc = -2^-1075\<close> is rounded to \<open>-0.0\<close>, so
  \<open>fa * fc < 0\<close> is false and the loop sets \<open>a = c\<close> although the sign change is in
  \<open>[a, c]\<close>.  The second row records the bracket \<open>[0.5, 2]\<close>, where \<open>f\<close> is positive
  at both ends.
\<close>

theorem bisseccao_update_underflow:
  "strict_sign_change (\<lambda>x. if x < 0 then Some (- (1 / 2 ^ 1074)) else Some x) (- 1) 2 \<and>
   bisseccao (\<lambda>x. if x < 0 then Some (- (1 / 2 ^ 1074)) else Some x) (- 1) 2 (1 / 1000000) 2 =
     Inr [\<lparr>r_iter = 1, r_a = - 1, r_b = 2, r_x = 1 / 2, r_fx = 1 / 2, r_erro = None\<rparr>,
          \<lparr>r_iter = 2, r_a = 1 / 2, r_b = 2, r_x = 5 / 4, r_fx = 5 / 4,
            r_erro = Some (3 / 4)\<rparr>] \<and>
   \<not> sign_change (\<lambda>x. if x < 0 then Some (- (1 / 2 ^ 1074)) else Some x) (1 / 2) 2"
  by (simp add: strict_sign_change_def sign_change_def bisseccao_def bracket_method_def
      bracket_start_def bisseccao_body_def bracket_step_def safe_eval_def float_mul_def
      underflow_bound_def Let_def eval_nat_numeral)

section \<open>Number of rows and their indices\<close>

lemma for_range_rows:
  assumes run: "for_range body n 1 s = Inr t"
    and step: "\<And>k s s'. body k s = Continue s' \<or> body k s = Break s' \<Longrightarrow>
                 \<exists>r. rws s' = rws s @ [r] \<and> it r = k"
    and empty: "rws s = []"
  shows "length (rws t) \<le> n \<and> (0 < n \<longrightarrow> 1 \<le> length (rws t)) \<and>
         (\<forall>i < length (rws t). it (rws t ! i) = int i + 1)"
proof -
  have len: "length (rws s') = Suc (length (rws s))"
    if "body k s = Continue s' \<or> body k s = Break s'" for k s s'
    using step [OF that] by auto
  have "length (rws s) \<le> length (rws t) \<and> length (rws t) \<le> length (rws s) + n \<and>
        (0 < n \<longrightarrow> length (rws s) < length (rws t))"
    by (rule for_range_count [where m = "\<lambda>s. length (rws s)", OF run]) (rule len)
  with empty have a: "length (rws t) \<le> n \<and> (0 < n \<longrightarrow> 1 \<le> length (rws t))"
    by (auto simp: Suc_le_eq)
  let ?idx = "\<lambda>s. \<forall>i < length (rws s). it (rws s ! i) = int i + 1"
  let ?I = "\<lambda>k s. k = int (length (rws s)) + 1 \<and> ?idx s"
  have i0: "?I 1 s" using empty by simp
  have ext: "?I (k + 1) s'"
    if "?I k s" and "body k s = Continue s' \<or> body k s = Break s'" for k s s'
  proof -
    from step [OF that(2)] obtain r where r: "rws s' = rws s @ [r]" "it r = k" by blast
    show ?thesis using that(1) r by (auto simp: nth_append less_Suc_eq)
  qed
  have "?idx t"
  proof (rule for_range_rule [where I = ?I and Q = ?idx, OF run i0])
    show "?I (k + 1) s'" if "?I k s" "body k s = Continue s'" for k s s'
      using ext [of k s s'] that by blast
    show "?idx s'" if "?I k s" "body k s = Break s'" for k s s'
      using ext [of k s s'] that by blast
    show "?idx s" if "?I k s" for k s using that by blast
  qed
  with a show ?thesis by blast
qed

lemma bracket_step_appends:
  "bracket_step tol k s c fc = Continue s' \<or> bracket_step tol k s c fc = Break s' \<Longrightarrow>
     \<exists>r. bs_rows s' = bs_rows s @ [r] \<and> r_iter r = k \<and> r_a r = bs_a s \<and> r_b r = bs_b s"
  by (auto simp: bracket_step_def Let_def split: if_splits)

lemma bisseccao_body_appends:
  "bisseccao_body f tol k s = Continue s' \<or> bisseccao_body f tol k s = Break s' \<Longrightarrow>
     \<exists>r. bs_rows s' = bs_rows s @ [r] \<and> r_iter r = k"
  using bracket_step_appends [of tol k s _ _ s']
  by (auto simp: bisseccao_body_def Let_def split: sum.splits)

lemma regula_falsi_body_appends:
  "regula_falsi_body f tol k s = Continue s' \<or> regula_falsi_body f tol k s = Break s' \<Longrightarrow>
     \<exists>r. bs_rows s' = bs_rows s @ [r] \<and> r_iter r = k"
  using bracket_step_appends [of tol k s _ _ s']
  by (auto simp: regula_falsi_body_def Let_def split: sum.splits if_splits)

lemma iterativo_linear_body_appends:
  "iterativo_linear_body g tol k s = Continue s' \<or> iterativo_linear_body g tol k s = Break s' \<Longrightarrow>
     \<exists>r. fs_rows s' = fs_rows s @ [r] \<and> fp_iter r = k"
  by (auto simp: iterativo_linear_body_def Let_def split: sum.splits if_splits)

lemma newton_body_appends:
  "newton_body f df tol k s = Continue s' \<or> newton_body f df tol k s = Break s' \<Longrightarrow>
     \<exists>r. ns_rows s' = ns_rows s @ [r] \<and> nw_iter r = k"
  by (auto simp: newton_body_def Let_def split: sum.splits if_splits)

lemma secante_body_appends:
  "secante_body f tol k s = Continue s' \<or> secante_body f tol k s = Break s' \<Longrightarrow>
     \<exists>r. ss_rows s' = ss_rows s @ [r] \<and> sc_iter r = k"
  by (auto simp: secante_body_def Let_def split: sum.splits if_splits)

lemma bracket_start_rows: "bracket_start f a b = Inr s0 \<Longrightarrow> bs_rows s0 = []"
  by (auto simp: bracket_start_def split: sum.splits if_splits)

lemma secante_start_rows: "secante_start f x0 x1 = Inr s0 \<Longrightarrow> ss_rows s0 = []"
  by (auto simp: secante_start_def split: sum.splits)

lemma bracket_method_rows:
  assumes "map_sum id bs_rows (bracket_method body f a b tol max_iter) = Inr rows"
    and "\<And>k s s'. body f tol k s = Continue s' \<or> body f tol k s = Break s' \<Longrightarrow>
                 \<exists>r. bs_rows s' = bs_rows s @ [r] \<and> r_iter r = k"
  shows "length rows \<le> nat max_iter \<and> (0 < nat max_iter \<longrightarrow> 1 \<le> length rows) \<and>
         (\<forall>i < length rows. r_iter (rows ! i) = int i + 1)"
proof -
  from assms(1) obtain s0 t where s0: "bracket_start f a b = Inr s0"
    and t: "for_range (body f tol) (nat max_iter) 1 s0 = Inr t" and r: "rows = bs_rows t"
    by (auto simp: map_sum_Inr_iff bracket_method_def split: sum.splits)
  from for_range_rows [where rws = bs_rows and it = r_iter, OF t assms(2) bracket_start_rows [OF s0]]
  show ?thesis by (simp add: r)
qed

lemma iterativo_linear_rows:
  assumes "iterativo_linear g x0 tol max_iter = Inr rows"
  shows "length rows \<le> nat max_iter \<and> (0 < nat max_iter \<longrightarrow> 1 \<le> length rows) \<and>
         (\<forall>i < length rows. fp_iter (rows ! i) = int i + 1)"
proof -
  from assms obtain t where
    t: "for_range (iterativo_linear_body g tol) (nat max_iter) 1 \<lparr>fs_x_prev = x0, fs_rows = []\<rparr> = Inr t"
    and r: "rows = fs_rows t"
    by (auto simp: map_sum_Inr_iff iterativo_linear_def iterativo_linear_loop_def)
  from for_range_rows [where rws = fs_rows and it = fp_iter, OF t iterativo_linear_body_appends]
  show ?thesis by (simp add: r)
qed

lemma newton_rows:
  assumes "newton f df x0 tol max_iter = Inr rows"
  shows "length rows \<le> nat max_iter \<and> (0 < nat max_iter \<longrightarrow> 1 \<le> length rows) \<and>
         (\<forall>i < length rows. nw_iter (rows ! i) = int i + 1)"
proof -
  from assms obtain t where
    t: "for_range (newton_body f df tol) (nat max_iter) 1 \<lparr>ns_x = x0, ns_rows = []\<rparr> = Inr t"
    and r: "rows = ns_rows t"
    by (auto simp: map_sum_Inr_iff newton_def newton_loop_def)
  from for_range_rows [where rws = ns_rows and it = nw_iter, OF t newton_body_appends]
  show ?thesis by (simp add: r)
qed

lemma secante_rows:
  assumes "secante f x0 x1 tol max_iter = Inr rows"
  shows "length rows \<le> nat max_iter \<and> (0 < nat max_iter \<longrightarrow> 1 \<le> length rows) \<and>
         (\<forall>i < length rows. sc_iter (rows ! i) = int i + 1)"
proof -
  from assms obtain s0 t where s0: "secante_start f x0 x1 = Inr s0"
    and t: "for_range (secante_body f tol) (nat max_iter) 1 s0 = Inr t" and r: "rows = ss_rows t"
    by (auto simp: map_sum_Inr_iff secante_def secante_loop_def split: sum.splits)
  from for_range_rows [where rws = ss_rows and it = sc_iter,
      OF t secante_body_appends secante_start_rows [OF s0]]
  show ?thesis by (simp add: r)
qed


lemma sum_cases_Inr: "(\<And>e. r \<noteq> Inl e) \<Longrightarrow> \<exists>y. r = Inr y"
  by (cases r) auto

lemma bisseccao_body_raise_eval:
  "bisseccao_body f tol k s = Raise e \<Longrightarrow> \<exists>x. f x = None"
  by (auto simp: bisseccao_body_def bracket_step_def safe_eval_def Let_def
           split: option.splits if_splits)

lemma regula_falsi_body_raise_eval:
  "regula_falsi_body f tol k s = Raise e \<Longrightarrow> bs_fb s = bs_fa s \<or> (\<exists>x. f x = None)"
  by (auto simp: regula_falsi_body_def bracket_step_def safe_eval_def Let_def
           split: option.splits if_splits)

lemma iterativo_linear_body_raise:
  "iterativo_linear_body g tol k s = Raise e \<longleftrightarrow> e = EvalValueError \<and> g (fs_x_prev s) = None"
  by (auto simp: iterativo_linear_body_def safe_eval_def Let_def split: option.splits)

lemma bracket_start_sign_change:
  "sign_change f a b \<Longrightarrow> \<exists>s0. bracket_start f a b = Inr s0"
  using underflow_bound_pos
  by (auto simp: sign_change_def bracket_start_def safe_eval_def float_mul_pos_iff
      split: option.splits)

lemma bisseccao_returns:
  assumes "\<forall>x. f x \<noteq> None" and "sign_change f a b"
  shows "\<exists>rows. bisseccao f a b tol max_iter = Inr rows"
proof (rule sum_cases_Inr)
  fix e
  show "bisseccao f a b tol max_iter \<noteq> Inl e"
  proof
    assume "bisseccao f a b tol max_iter = Inl e"
    then have "bracket_method bisseccao_body f a b tol max_iter = Inl e"
      by (simp add: bisseccao_def map_sum_Inl_iff)
    then consider "bracket_start f a b = Inl e"
      | p where "bisseccao_body f tol (fst p) (snd p) = Raise e"
      using bracket_method_raises_iff [of bisseccao_body f a b tol max_iter e] by blast
    then show False
    proof cases
      case 1
      then show False using bracket_start_sign_change [OF assms(2)] by simp
    next
      case 2
      then show False using bisseccao_body_raise_eval [OF 2] assms(1) by blast
    qed
  qed
qed

lemma regula_falsi_returns:
  assumes "\<forall>x. f x \<noteq> None" and "sign_change f a b"
    and "\<forall>p \<in> set (bracket_passes regula_falsi_body f a b tol max_iter).
           bs_fb (snd p) \<noteq> bs_fa (snd p)"
  shows "\<exists>rows. regula_falsi f a b tol max_iter = Inr rows"
proof (rule sum_cases_Inr)
  fix e
  show "regula_falsi f a b tol max_iter \<noteq> Inl e"
  proof
    assume "regula_falsi f a b tol max_iter = Inl e"
    then have "bracket_method regula_falsi_body f a b tol max_iter = Inl e"
      by (simp add: regula_falsi_def map_sum_Inl_iff)
    then consider "bracket_start f a b = Inl e"
      | p where "p \<in> set (bracket_passes regula_falsi_body f a b tol max_iter)"
          "regula_falsi_body f tol (fst p) (snd p) = Raise e"
      using bracket_method_raises_iff [of regula_falsi_body f a b tol max_iter e] by blast
    then show False
    proof cases
      case 1
      then show False using bracket_start_sign_change [OF assms(2)] by simp
    next
      case 2
      then show False using regula_falsi_body_raise_eval [OF 2(2)] assms(1,3) by blast
    qed
  qed
qed

lemma iterativo_linear_raises_iff:
  "iterativo_linear g x0 tol max_iter = Inl e \<longleftrightarrow>
     (\<exists>p \<in> set (iterativo_linear_passes g x0 tol max_iter).
        iterativo_linear_body g tol (fst p) (snd p) = Raise e)"
  by (simp add: iterativo_linear_def iterativo_linear_loop_def iterativo_linear_passes_def
      map_sum_Inl_iff for_range_raises_iff)

lemma iterativo_linear_returns:
  assumes "\<forall>x. g x \<noteq> None"
  shows "\<exists>rows. iterativo_linear g x0 tol max_iter = Inr rows"
proof (rule sum_cases_Inr)
  fix e
  show "iterativo_linear g x0 tol max_iter \<noteq> Inl e"
    using assms by (simp add: iterativo_linear_raises_iff iterativo_linear_body_raise)
qed

lemma newton_returns:
  assumes "\<forall>x. f x \<noteq> None \<and> df x \<noteq> None"
    and "\<forall>p \<in> set (newton_passes f df x0 tol max_iter). df (ns_x (snd p)) \<noteq> Some 0"
  shows "\<exists>rows. newton f df x0 tol max_iter = Inr rows"
proof (rule sum_cases_Inr)
  fix e
  show "newton f df x0 tol max_iter \<noteq> Inl e"
    using assms newton_body_eval_error [of f df tol] newton_body_zero_division [of f df tol]
      newton_body_bracket_error [of f df tol]
    by (cases e) (auto simp: newton_raises_iff)
qed

lemma secante_returns:
  assumes "\<forall>x. f x \<noteq> None"
    and "\<forall>p \<in> set (secante_passes f x0 x1 tol max_iter). ss_fx (snd p) \<noteq> ss_f_prev (snd p)"
  shows "\<exists>rows. secante f x0 x1 tol max_iter = Inr rows"
proof (rule sum_cases_Inr)
  fix e
  show "secante f x0 x1 tol max_iter \<noteq> Inl e"
  proof
    assume "secante f x0 x1 tol max_iter = Inl e"
    then consider "secante_start f x0 x1 = Inl e"
      | p where "p \<in> set (secante_passes f x0 x1 tol max_iter)"
          "secante_body f tol (fst p) (snd p) = Raise e"
      using secante_raises_iff [of f x0 x1 tol max_iter e] by blast
    then show False
    proof cases
      case 1
      then show False using secante_start_total [of f x0 x1] assms(1) by auto
    next
      case 2
      then have "e \<noteq> ZeroDivisionError"
        using assms(2) secante_body_zero_division [of f tol "fst p" "snd p"] by auto
      from secante_body_other_error [OF 2(2) this] assms(1) show False by blast
    qed
  qed
qed

text \<open>
  Claim C8.  With \<open>max_iter \<ge> 1\<close>, every list of rows that one of the five methods
  returns (that is: every evaluation made succeeded, the sign test passed and no zero
  denominator or derivative was met) has at least one and at most \<open>max_iter\<close> rows, and
  the \<open>iter\<close> field of the \<open>k\<close>-th row is \<open>k\<close> (the row at list position \<open>i\<close> holds
  \<open>i + 1\<close>).  The last five parts say that such inputs do return rows: expressions that
  evaluate everywhere, a bracket with \<open>f(a) * f(b) \<le> 0\<close>, and no pass of the loop that
  starts at a singularity.
\<close>

theorem rows_length_and_index:
  assumes "1 \<le> max_iter"
  shows
    "(\<forall>rows. bisseccao f a b tol max_iter = Inr rows \<longrightarrow>
        1 \<le> length rows \<and> int (length rows) \<le> max_iter \<and>
        (\<forall>i < length rows. r_iter (rows ! i) = int i + 1)) \<and>
     (\<forall>rows. regula_falsi f a b tol max_iter = Inr rows \<longrightarrow>
        1 \<le> length rows \<and> int (length rows) \<le> max_iter \<and>
        (\<forall>i < length rows. r_iter (rows ! i) = int i + 1)) \<and>
     (\<forall>rows. iterativo_linear g x0 tol max_iter = Inr rows \<longrightarrow>
        1 \<le> length rows \<and> int (length rows) \<le> max_iter \<and>
        (\<forall>i < length rows. fp_iter (rows ! i) = int i + 1)) \<and>
     (\<forall>rows. newton f df x0 tol max_iter = Inr rows \<longrightarrow>
        1 \<le> length rows \<and> int (length rows) \<le> max_iter \<and>
        (\<forall>i < length rows. nw_iter (rows ! i) = int i + 1)) \<and>
     (\<forall>rows. secante f x0 x1 tol max_iter = Inr rows \<longrightarrow>
        1 \<le> length rows \<and> int (length rows) \<le> max_iter \<and>
        (\<forall>i < length rows. sc_iter (rows ! i) = int i + 1)) \<and>
     ((\<forall>x. f x \<noteq> None) \<and> sign_change f a b \<longrightarrow>
        (\<exists>rows. bisseccao f a b tol max_iter = Inr rows)) \<and>
     ((\<forall>x. f x \<noteq> None) \<and> sign_change f a b \<and>
      (\<forall>p \<in> set (bracket_passes regula_falsi_body f a b tol max_iter).
           bs_fb (snd p) \<noteq> bs_fa (snd p)) \<longrightarrow>
        (\<exists>rows. regula_falsi f a b tol max_iter = Inr rows)) \<and>
     ((\<forall>x. g x \<noteq> None) \<longrightarrow> (\<exists>rows. iterativo_linear g x0 tol max_iter = Inr rows)) \<and>
     ((\<forall>x. f x \<noteq> None \<and> df x \<noteq> None) \<and>
      (\<forall>p \<in> set (newton_passes f df x0 tol max_iter). df (ns_x (snd p)) \<noteq> Some 0) \<longrightarrow>
        (\<exists>rows. newton f df x0 tol max_iter = Inr rows)) \<and>
     ((\<forall>x. f x \<noteq> None) \<and>
      (\<forall>p \<in> set (secante_passes f x0 x1 tol max_iter). ss_fx (snd p) \<noteq> ss_f_prev (snd p)) \<longrightarrow>
        (\<exists>rows. secante f x0 x1 tol max_iter = Inr rows))"
proof -
  have n: "0 < nat max_iter" and le: "\<And>m. m \<le> nat max_iter \<Longrightarrow> int m \<le> max_iter"
    using assms by auto
  have 1: "1 \<le> length rows \<and> int (length rows) \<le> max_iter \<and>
        (\<forall>i < length rows. r_iter (rows ! i) = int i + 1)"
    if "bisseccao f a b tol max_iter = Inr rows" for rows
  proof -
    have "length rows \<le> nat max_iter \<and> (0 < nat max_iter \<longrightarrow> 1 \<le> length rows) \<and>
         (\<forall>i < length rows. r_iter (rows ! i) = int i + 1)"
      by (rule bracket_method_rows [OF that [unfolded bisseccao_def]])
        (rule bisseccao_body_appends)
    then show ?thesis using n le by blast
  qed
  have 2: "1 \<le> length rows \<and> int (length rows) \<le> max_iter \<and>
        (\<forall>i < length rows. r_iter (rows ! i) = int i + 1)"
    if "regula_falsi f a b tol max_iter = Inr rows" for rows
  proof -
    have "length rows \<le> nat max_iter \<and> (0 < nat max_iter \<longrightarrow> 1 \<le> length rows) \<and>
         (\<forall>i < length rows. r_iter (rows ! i) = int i + 1)"
      by (rule bracket_method_rows [OF that [unfolded regula_falsi_def]])
        (rule regula_falsi_body_appends)
    then show ?thesis using n le by blast
  qed
  have 3: "1 \<le> length rows \<and> int (length rows) \<le> max_iter \<and>
        (\<forall>i < length rows. fp_iter (rows ! i) = int i + 1)"
    if "iterativo_linear g x0 tol max_iter = Inr rows" for rows
    using iterativo_linear_rows [OF that] n le by blast
  have 4: "1 \<le> length rows \<and> int (length rows) \<le> max_iter \<and>
        (\<forall>i < length rows. nw_iter (rows ! i) = int i + 1)"
    if "newton f df x0 tol max_iter = Inr rows" for rows
    using newton_rows [OF that] n le by blast
  have 5: "1 \<le> length rows \<and> int (length rows) \<le> max_iter \<and>
        (\<forall>i < length rows. sc_iter (rows ! i) = int i + 1)"
    if "secante f x0 x1 tol max_iter = Inr rows" for rows
    using secante_rows [OF that] n le by blast
  have 6: "(\<forall>x. f x \<noteq> None) \<and> sign_change f a b \<longrightarrow>
        (\<exists>rows. bisseccao f a b tol max_iter = Inr rows)"
    using bisseccao_returns [of f a b tol max_iter] by blast
  have 7: "(\<forall>x. f x \<noteq> None) \<and> sign_change f a b \<and>
      (\<forall>p \<in> set (bracket_passes regula_falsi_body f a b tol max_iter).
           bs_fb (snd p) \<noteq> bs_fa (snd p)) \<longrightarrow>
        (\<exists>rows. regula_falsi f a b tol max_iter = Inr rows)"
    using regula_falsi_returns [of f a b tol max_iter] by blast
  have 8: "(\<forall>x. g x \<noteq> None) \<longrightarrow> (\<exists>rows. iterativo_linear g x0 tol max_iter = Inr rows)"
    using iterativo_linear_returns [of g x0 tol max_iter] by blast
  have 9: "(\<forall>x. f x \<noteq> None \<and> df x \<noteq> None) \<and>
      (\<forall>p \<in> set (newton_passes f df x0 tol max_iter). df (ns_x (snd p)) \<noteq> Some 0) \<longrightarrow>
        (\<exists>rows. newton f df x0 tol max_iter = Inr rows)"
    using newton_returns [of f df x0 tol max_iter] by blast
  have 10: "(\<forall>x. f x \<noteq> None) \<and>
      (\<forall>p \<in> set (secante_passes f x0 x1 tol max_iter). ss_fx (snd p) \<noteq> ss_f_prev (snd p)) \<longrightarrow>
        (\<exists>rows. secante f x0 x1 tol max_iter = Inr rows)"
    using secante_returns [of f x0 x1 tol max_iter] by blast
  show ?thesis
    apply (intro conjI allI)
    subgoal for rows using 1 [of rows] by blast
    subgoal for rows using 2 [of rows] by blast
    subgoal for rows using 3 [of rows] by blast
    subgoal for rows using 4 [of rows] by blast
    subgoal for rows using 5 [of rows] by blast
    subgoal by (rule 6)
    subgoal by (rule 7)
    subgoal by (rule 8)
    subgoal by (rule 9)
    subgoal by (rule 10)
    done
qed



theorem rows_length_and_index_witness:
  "(\<exists>rows. bisseccao (\<lambda>x. Some (x * x - 2)) 0 2 (1 / 2) 5 = Inr rows \<and>
       1 \<le> length rows \<and> int (length rows) \<le> 5 \<and> r_iter (rows ! 1) = 2) \<and>
   (\<exists>rows. regula_falsi (\<lambda>x. Some (x * x - 2)) 0 2 (1 / 2) 5 = Inr rows \<and>
       1 \<le> length rows \<and> int (length rows) \<le> 5 \<and> r_iter (rows ! 1) = 2) \<and>
   (\<exists>rows. iterativo_linear (\<lambda>x. Some (x / 2)) 1 (1 / 2) 5 = Inr rows \<and>
       1 \<le> length rows \<and> int (length rows) \<le> 5 \<and> fp_iter (rows ! 1) = 2) \<and>
   (\<exists>rows. newton (\<lambda>x. Some (x * x - 2)) (\<lambda>x. Some (2 * x)) 1 (1 / 10) 5 = Inr rows \<and>
       1 \<le> length rows \<and> int (length rows) \<le> 5 \<and> nw_iter (rows ! 1) = 2) \<and>
   (\<exists>rows. secante (\<lambda>x. Some (x * x - 2)) 1 2 (1 / 10) 5 = Inr rows \<and>
       1 \<le> length rows \<and> int (length rows) \<le> 5 \<and> sc_iter (rows ! 1) = 2)"
proof -
  let ?f = "\<lambda>x::real. Some (x * x - 2)" and ?df = "\<lambda>x::real. Some (2 * x)"
  let ?g = "\<lambda>x::real. Some (x / 2)"
  have m: "(1::int) \<le> 5" by simp
  note t = rows_length_and_index [OF m, where f = ?f and a = 0 and b = 2 and tol = "1 / 2" and g = ?g
      and ?x0.0 = 1]
  note u = rows_length_and_index [OF m, where f = ?f and df = ?df and tol = "1 / 10" and ?x0.0 = 1
      and ?x1.0 = 2]
  have e1: "\<exists>rows. bisseccao ?f 0 2 (1 / 2) 5 = Inr rows \<and> 1 < length rows"
    by (simp add: bisseccao_def bracket_method_def bracket_start_def bisseccao_body_def
        bracket_step_def safe_eval_def float_mul_def underflow_bound_def Let_def
        eval_nat_numeral)
  have e2: "\<exists>rows. regula_falsi ?f 0 2 (1 / 2) 5 = Inr rows \<and> 1 < length rows"
    by (simp add: regula_falsi_def bracket_method_def bracket_start_def regula_falsi_body_def
        bracket_step_def safe_eval_def float_mul_def underflow_bound_def Let_def
        eval_nat_numeral)
  have e3: "\<exists>rows. iterativo_linear ?g 1 (1 / 2) 5 = Inr rows \<and> 1 < length rows"
    by (simp add: iterativo_linear_def iterativo_linear_loop_def iterativo_linear_body_def
        safe_eval_def Let_def eval_nat_numeral)
  have e4: "\<exists>rows. newton ?f ?df 1 (1 / 10) 5 = Inr rows \<and> 1 < length rows"
    by (simp add: newton_def newton_loop_def newton_body_def safe_eval_def Let_def
        eval_nat_numeral)
  have e5: "\<exists>rows. secante ?f 1 2 (1 / 10) 5 = Inr rows \<and> 1 < length rows"
    by (simp add: secante_def secante_loop_def secante_start_def secante_body_def
        safe_eval_def Let_def eval_nat_numeral)
  have 1: "\<exists>rows. bisseccao ?f 0 2 (1 / 2) 5 = Inr rows \<and>
       1 \<le> length rows \<and> int (length rows) \<le> 5 \<and> r_iter (rows ! 1) = 2"
    using e1 t [THEN conjunct1] by fastforce
  have 2: "\<exists>rows. regula_falsi ?f 0 2 (1 / 2) 5 = Inr rows \<and>
       1 \<le> length rows \<and> int (length rows) \<le> 5 \<and> r_iter (rows ! 1) = 2"
    using e2 t [THEN conjunct2, THEN conjunct1] by fastforce
  have 3: "\<exists>rows. iterativo_linear ?g 1 (1 / 2) 5 = Inr rows \<and>
       1 \<le> length rows \<and> int (length rows) \<le> 5 \<and> fp_iter (rows ! 1) = 2"
    using e3 t [THEN conjunct2, THEN conjunct2, THEN conjunct1] by fastforce
  have 4: "\<exists>rows. newton ?f ?df 1 (1 / 10) 5 = Inr rows \<and>
       1 \<le> length rows \<and> int (length rows) \<le> 5 \<and> nw_iter (rows ! 1) = 2"
    using e4 u [THEN conjunct2, THEN conjunct2, THEN conjunct2, THEN conjunct1]
    by fastforce
  have 5: "\<exists>rows. secante ?f 1 2 (1 / 10) 5 = Inr rows \<and>
       1 \<le> length rows \<and> int (length rows) \<le> 5 \<and> sc_iter (rows ! 1) = 2"
    using e5 u [THEN conjunct2, THEN conjunct2, THEN conjunct2, THEN conjunct2,
        THEN conjunct1]
    by fastforce
  from 1 2 3 4 5 show ?thesis by (intro conjI)
qed


section \<open>Bisection halves the bracket\<close>

lemma consecutive_snoc:
  assumes "\<forall>i. Suc i < length xs \<longrightarrow> P (xs ! i) (xs ! Suc i)"
    and "xs \<noteq> [] \<longrightarrow> P (last xs) x"
  shows "\<forall>i. Suc i < length (xs @ [x]) \<longrightarrow> P ((xs @ [x]) ! i) ((xs @ [x]) ! Suc i)"
proof (intro allI impI)
  fix i assume i: "Suc i < length (xs @ [x])"
  show "P ((xs @ [x]) ! i) ((xs @ [x]) ! Suc i)"
  proof (cases "Suc i < length xs")
    case True
    then show ?thesis using assms(1) by (simp add: nth_append)
  next
    case False
    with i have l: "Suc i = length xs" by simp
    then have ne: "xs \<noteq> []" by auto
    have "last xs = xs ! i" using l [symmetric] ne by (simp add: last_conv_nth)
    with assms(2) l ne show ?thesis by (simp add: nth_append)
  qed
qed

lemma bisseccao_body_halves:
  assumes "bisseccao_body f tol k s = Continue s'"
  shows "\<exists>r. bs_rows s' = bs_rows s @ [r] \<and> r_a r = bs_a s \<and> r_b r = bs_b s \<and>
             bs_b s' - bs_a s' = (bs_b s - bs_a s) / 2"
  using assms
  by (auto simp: bisseccao_body_def bracket_step_def Let_def field_simps
      split: sum.splits if_splits)

lemma bisseccao_body_break_row:
  assumes "bisseccao_body f tol k s = Break s'"
  shows "\<exists>r. bs_rows s' = bs_rows s @ [r] \<and> r_a r = bs_a s \<and> r_b r = bs_b s"
  using assms
  by (auto simp: bisseccao_body_def bracket_step_def Let_def split: sum.splits if_splits)

text \<open>
  Claim C7.  In the list of rows that a bisection invocation returns, the bracket width
  \<open>b - a\<close> of each row after the first is exactly half the width of the row before it
  (real arithmetic).
\<close>

theorem bisseccao_width_halved:
  assumes "bisseccao f a b tol max_iter = Inr rows" and "Suc i < length rows"
  shows "r_b (rows ! Suc i) - r_a (rows ! Suc i) = (r_b (rows ! i) - r_a (rows ! i)) / 2"
proof -
  let ?P = "\<lambda>r r' :: bracket_row. r_b r' - r_a r' = (r_b r - r_a r) / 2"
  let ?H = "\<lambda>s. \<forall>i. Suc i < length (bs_rows s) \<longrightarrow> ?P (bs_rows s ! i) (bs_rows s ! Suc i)"
  let ?I = "\<lambda>(k::int) s. ?H s \<and>
      (bs_rows s \<noteq> [] \<longrightarrow> bs_b s - bs_a s = (r_b (last (bs_rows s)) - r_a (last (bs_rows s))) / 2)"
  from assms(1) obtain s0 t where s0: "bracket_start f a b = Inr s0"
    and t: "for_range (bisseccao_body f tol) (nat max_iter) 1 s0 = Inr t"
    and r: "rows = bs_rows t"
    by (auto simp: bisseccao_def map_sum_Inr_iff bracket_method_def split: sum.splits)
  have i0: "?I 1 s0" using bracket_start_rows [OF s0] by simp
  have "?H t"
  proof (rule for_range_rule [where I = ?I and Q = ?H, OF t i0])
    fix k s s'
    assume inv: "?I k s" and c: "bisseccao_body f tol k s = Continue s'"
    from bisseccao_body_halves [OF c] obtain r where
      r: "bs_rows s' = bs_rows s @ [r]" "r_a r = bs_a s" "r_b r = bs_b s"
         "bs_b s' - bs_a s' = (bs_b s - bs_a s) / 2" by blast
    have "\<forall>i. Suc i < length (bs_rows s @ [r]) \<longrightarrow>
            ?P ((bs_rows s @ [r]) ! i) ((bs_rows s @ [r]) ! Suc i)"
      by (rule consecutive_snoc) (use inv r in auto)
    then show "?I (k + 1) s'" using r by simp
  next
    fix k s s'
    assume inv: "?I k s" and c: "bisseccao_body f tol k s = Break s'"
    from bisseccao_body_break_row [OF c] obtain r where
      r: "bs_rows s' = bs_rows s @ [r]" "r_a r = bs_a s" "r_b r = bs_b s" by blast
    have "\<forall>i. Suc i < length (bs_rows s @ [r]) \<longrightarrow>
            ?P ((bs_rows s @ [r]) ! i) ((bs_rows s @ [r]) ! Suc i)"
      by (rule consecutive_snoc) (use inv r in auto)
    then show "?H s'" using r by simp
  next
    fix k s
    assume "?I k s"
    then show "?H s" by blast
  qed
  then show ?thesis using assms(2) r by blast
qed


theorem bisseccao_width_halved_witness:
  "r_b ([\<lparr>r_iter = 1, r_a = 0, r_b = 2, r_x = 1, r_fx = - 1, r_erro = None\<rparr>,
      \<lparr>r_iter = 2, r_a = 1, r_b = 2, r_x = 3 / 2, r_fx = 1 / 4, r_erro = Some (1 / 2)\<rparr>] ! Suc 0) -
   r_a ([\<lparr>r_iter = 1, r_a = 0, r_b = 2, r_x = 1, r_fx = - 1, r_erro = None\<rparr>,
      \<lparr>r_iter = 2, r_a = 1, r_b = 2, r_x = 3 / 2, r_fx = 1 / 4, r_erro = Some (1 / 2)\<rparr>] ! Suc 0) =
   (2 - 0) / (2::real)"
proof -
  let ?f = "\<lambda>x::real. Some (x * x - 2)"
  let ?rows = "[\<lparr>r_iter = 1, r_a = 0, r_b = 2, r_x = 1, r_fx = - 1, r_erro = None\<rparr>,
      \<lparr>r_iter = 2, r_a = 1, r_b = 2, r_x = 3 / 2, r_fx = 1 / 4, r_erro = Some (1 / 2)\<rparr>]"
  have 1: "bisseccao ?f 0 2 (1 / 2) 5 = Inr ?rows"
    by (simp add: bisseccao_def bracket_method_def
      bracket_start_def bisseccao_body_def bracket_step_def safe_eval_def float_mul_def
      underflow_bound_def Let_def eval_nat_numeral)
  have 2: "Suc 0 < length ?rows" by simp
  from bisseccao_width_halved [OF 1 2] show ?thesis by simp
qed


section \<open>Fixed-point iteration\<close>

lemma for_range_full_or_break:
  assumes "for_range body n k s = Inr t"
    and "\<And>k s s'. body k s = Continue s' \<Longrightarrow> m s' = Suc (m s)"
    and "\<And>k s s'. body k s = Break s' \<Longrightarrow> B s'"
  shows "m t = m s + n \<or> B t"
  using assms(1)
proof (induction n arbitrary: k s)
  case 0
  then show ?case by simp
next
  case (Suc n)
  show ?case
  proof (cases "body k s")
    case (Raise e')
    then show ?thesis using Suc.prems by simp
  next
    case (Break s')
    then show ?thesis using Suc.prems assms(3) [of k s s'] by simp
  next
    case (Continue s')
    then have "for_range body n (k + 1) s' = Inr t" using Suc.prems by simp
    from Suc.IH [OF this] assms(2) [OF Continue] show ?thesis by simp
  qed
qed

lemma iterativo_linear_body_continue:
  assumes "iterativo_linear_body g tol k s = Continue s'"
  shows "\<exists>x. g (fs_x_prev s) = Some x \<and>
           fs_rows s' = fs_rows s @
             [\<lparr>fp_iter = k, fp_x = x, fp_gx = x, fp_erro = \<bar>x - fs_x_prev s\<bar>\<rparr>] \<and>
           fs_x_prev s' = x \<and> \<not> \<bar>x - fs_x_prev s\<bar> < tol"
  using assms
  by (auto simp: iterativo_linear_body_def safe_eval_def Let_def
      split: option.splits if_splits)

lemma iterativo_linear_body_break:
  assumes "iterativo_linear_body g tol k s = Break s'"
  shows "\<exists>x. g (fs_x_prev s) = Some x \<and>
           fs_rows s' = fs_rows s @
             [\<lparr>fp_iter = k, fp_x = x, fp_gx = x, fp_erro = \<bar>x - fs_x_prev s\<bar>\<rparr>] \<and>
           \<bar>x - fs_x_prev s\<bar> < tol"
  using assms
  by (auto simp: iterativo_linear_body_def safe_eval_def Let_def
      split: option.splits if_splits)

lemma fp_trace_snoc:
  assumes "\<forall>i < length rows.
             g (if i = 0 then x0 else fp_x (rows ! (i - 1))) = Some (fp_x (rows ! i)) \<and>
             fp_gx (rows ! i) = fp_x (rows ! i) \<and>
             fp_erro (rows ! i) = \<bar>fp_x (rows ! i) - (if i = 0 then x0 else fp_x (rows ! (i - 1)))\<bar> \<and>
             fp_iter (rows ! i) = int i + 1"
    and "xp = (if rows = [] then x0 else fp_x (last rows))"
    and "g xp = Some x"
  shows "\<forall>i < length (rows @ [\<lparr>fp_iter = int (length rows) + 1, fp_x = x, fp_gx = x,
                                  fp_erro = \<bar>x - xp\<bar>\<rparr>]).
             (let rs = rows @ [\<lparr>fp_iter = int (length rows) + 1, fp_x = x, fp_gx = x,
                                  fp_erro = \<bar>x - xp\<bar>\<rparr>]
              in g (if i = 0 then x0 else fp_x (rs ! (i - 1))) = Some (fp_x (rs ! i)) \<and>
                 fp_gx (rs ! i) = fp_x (rs ! i) \<and>
                 fp_erro (rs ! i) = \<bar>fp_x (rs ! i) - (if i = 0 then x0 else fp_x (rs ! (i - 1)))\<bar> \<and>
                 fp_iter (rs ! i) = int i + 1)"
proof (intro allI impI)
  fix i
  let ?r = "\<lparr>fp_iter = int (length rows) + 1, fp_x = x, fp_gx = x, fp_erro = \<bar>x - xp\<bar>\<rparr>"
  assume "i < length (rows @ [?r])"
  then consider "i < length rows" | "i = length rows" by fastforce
  then show "let rs = rows @ [?r]
              in g (if i = 0 then x0 else fp_x (rs ! (i - 1))) = Some (fp_x (rs ! i)) \<and>
                 fp_gx (rs ! i) = fp_x (rs ! i) \<and>
                 fp_erro (rs ! i) = \<bar>fp_x (rs ! i) - (if i = 0 then x0 else fp_x (rs ! (i - 1)))\<bar> \<and>
                 fp_iter (rs ! i) = int i + 1"
  proof cases
    case 1
    then have "i - 1 < length rows" by simp
    with 1 assms(1) [rule_format, OF 1] show ?thesis
      by (cases "i = 0") (simp_all add: nth_append Let_def)
  next
    case 2
    show ?thesis
    proof (cases "rows = []")
      case True
      then show ?thesis using 2 assms(2,3) by (simp add: Let_def)
    next
      case False
      then have "last rows = rows ! (i - 1)" and "i \<noteq> 0" and "i - 1 < length rows"
        using 2 by (auto simp: last_conv_nth)
      then show ?thesis using 2 False assms(2,3) by (simp add: nth_append Let_def)
    qed
  qed
qed


lemma iterativo_linear_trace:
  assumes run: "for_range (iterativo_linear_body g tol) n 1 \<lparr>fs_x_prev = x0, fs_rows = []\<rparr> = Inr t"
  shows "(\<forall>i < length (fs_rows t).
             g (if i = 0 then x0 else fp_x (fs_rows t ! (i - 1))) = Some (fp_x (fs_rows t ! i)) \<and>
             fp_gx (fs_rows t ! i) = fp_x (fs_rows t ! i) \<and>
             fp_erro (fs_rows t ! i) =
               \<bar>fp_x (fs_rows t ! i) - (if i = 0 then x0 else fp_x (fs_rows t ! (i - 1)))\<bar> \<and>
             fp_iter (fs_rows t ! i) = int i + 1) \<and>
         (\<forall>i. Suc i < length (fs_rows t) \<longrightarrow> \<not> fp_erro (fs_rows t ! i) < tol)"
proof -
  let ?T = "\<lambda>rows. \<forall>i < length rows.
             g (if i = 0 then x0 else fp_x (rows ! (i - 1))) = Some (fp_x (rows ! i)) \<and>
             fp_gx (rows ! i) = fp_x (rows ! i) \<and>
             fp_erro (rows ! i) = \<bar>fp_x (rows ! i) - (if i = 0 then x0 else fp_x (rows ! (i - 1)))\<bar> \<and>
             fp_iter (rows ! i) = int i + 1"
  let ?N = "\<lambda>rows. \<forall>i < length rows. \<not> fp_erro (rows ! i) < tol"
  let ?I = "\<lambda>k s. ?T (fs_rows s) \<and>
      fs_x_prev s = (if fs_rows s = [] then x0 else fp_x (last (fs_rows s))) \<and>
      k = int (length (fs_rows s)) + 1 \<and> ?N (fs_rows s)"
  let ?Q = "\<lambda>s. ?T (fs_rows s) \<and>
      (\<forall>i. Suc i < length (fs_rows s) \<longrightarrow> \<not> fp_erro (fs_rows s ! i) < tol)"
  have i0: "?I 1 \<lparr>fs_x_prev = x0, fs_rows = []\<rparr>" by simp
  show ?thesis
  proof (rule for_range_rule [where I = ?I and Q = ?Q, OF run i0])
    fix k s s'
    assume inv: "?I k s" and c: "iterativo_linear_body g tol k s = Continue s'"
    from iterativo_linear_body_continue [OF c] obtain x where
      x: "g (fs_x_prev s) = Some x"
         "fs_rows s' = fs_rows s @
             [\<lparr>fp_iter = k, fp_x = x, fp_gx = x, fp_erro = \<bar>x - fs_x_prev s\<bar>\<rparr>]"
         "fs_x_prev s' = x" "\<not> \<bar>x - fs_x_prev s\<bar> < tol" by blast
    from inv have k: "k = int (length (fs_rows s)) + 1" by blast
    from inv have xp: "fs_x_prev s = (if fs_rows s = [] then x0 else fp_x (last (fs_rows s)))"
      by blast
    from inv have T: "?T (fs_rows s)" by blast
    have "?T (fs_rows s')"
      using fp_trace_snoc [OF T xp x(1), unfolded Let_def] by (simp only: x(2) k)
    moreover have "?N (fs_rows s')"
      using inv x(4) by (auto simp: x(2) nth_append less_Suc_eq)
    ultimately show "?I (k + 1) s'" using x(2,3) k by simp
  next
    fix k s s'
    assume inv: "?I k s" and c: "iterativo_linear_body g tol k s = Break s'"
    from iterativo_linear_body_break [OF c] obtain x where
      x: "g (fs_x_prev s) = Some x"
         "fs_rows s' = fs_rows s @
             [\<lparr>fp_iter = k, fp_x = x, fp_gx = x, fp_erro = \<bar>x - fs_x_prev s\<bar>\<rparr>]" by blast
    from inv have k: "k = int (length (fs_rows s)) + 1" by blast
    from inv have xp: "fs_x_prev s = (if fs_rows s = [] then x0 else fp_x (last (fs_rows s)))"
      by blast
    from inv have T: "?T (fs_rows s)" by blast
    have "?T (fs_rows s')"
      using fp_trace_snoc [OF T xp x(1), unfolded Let_def] by (simp only: x(2) k)
    moreover have "\<forall>i. Suc i < length (fs_rows s') \<longrightarrow> \<not> fp_erro (fs_rows s' ! i) < tol"
      using inv by (auto simp: x(2) nth_append)
    ultimately show "?Q s'" by blast
  next
    fix k s
    assume inv: "?I k s"
    then have N: "?N (fs_rows s)" by blast
    have "\<forall>i. Suc i < length (fs_rows s) \<longrightarrow> \<not> fp_erro (fs_rows s ! i) < tol"
      using N Suc_lessD by blast
    with inv show "?Q s" by blast
  qed
qed

text \<open>
  Claim C9.  The fixed-point method evaluates \<open>x = g(x_prev)\<close> in each pass, with
  \<open>x_prev = x0\<close> in the first pass and the previous row's \<open>x\<close> afterwards, and appends
  the row \<open>{iter, x, g(x_prev) = x, erro = |x - x_prev|}\<close>.  No row before the last has
  \<open>erro < tol\<close>, and the list ends either with the first row whose \<open>erro < tol\<close> or
  with \<open>max_iter\<close> rows.  Nothing is tested before the loop; the only error is that of
  a failed evaluation of \<open>g\<close>, so an expression that evaluates everywhere always gives
  a list of rows, whatever the growth of the iterates.
\<close>

theorem iterativo_linear_behaviour:
  "(\<forall>e. iterativo_linear g x0 tol max_iter = Inl e \<longrightarrow>
        e = EvalValueError \<and>
        (\<exists>p \<in> set (iterativo_linear_passes g x0 tol max_iter). g (fs_x_prev (snd p)) = None)) \<and>
   ((\<forall>x. g x \<noteq> None) \<longrightarrow> (\<exists>rows. iterativo_linear g x0 tol max_iter = Inr rows)) \<and>
   (\<forall>rows. iterativo_linear g x0 tol max_iter = Inr rows \<longrightarrow>
      (\<forall>i < length rows.
          g (if i = 0 then x0 else fp_x (rows ! (i - 1))) = Some (fp_x (rows ! i)) \<and>
          fp_gx (rows ! i) = fp_x (rows ! i) \<and>
          fp_erro (rows ! i) = \<bar>fp_x (rows ! i) - (if i = 0 then x0 else fp_x (rows ! (i - 1)))\<bar> \<and>
          fp_iter (rows ! i) = int i + 1) \<and>
      (\<forall>i. Suc i < length rows \<longrightarrow> \<not> fp_erro (rows ! i) < tol) \<and>
      (length rows = nat max_iter \<or> (rows \<noteq> [] \<and> fp_erro (last rows) < tol)))"
proof -
  have a: "\<forall>e. iterativo_linear g x0 tol max_iter = Inl e \<longrightarrow>
        e = EvalValueError \<and>
        (\<exists>p \<in> set (iterativo_linear_passes g x0 tol max_iter). g (fs_x_prev (snd p)) = None)"
  proof (intro allI impI)
    fix e assume "iterativo_linear g x0 tol max_iter = Inl e"
    then obtain p where p: "p \<in> set (iterativo_linear_passes g x0 tol max_iter)"
      "iterativo_linear_body g tol (fst p) (snd p) = Raise e"
      using iterativo_linear_raises_iff by blast
    from p(2) have "e = EvalValueError" and "g (fs_x_prev (snd p)) = None"
      by (simp_all add: iterativo_linear_body_raise)
    with p(1) show "e = EvalValueError \<and>
        (\<exists>p \<in> set (iterativo_linear_passes g x0 tol max_iter). g (fs_x_prev (snd p)) = None)"
      by blast
  qed
  have b: "(\<forall>x. g x \<noteq> None) \<longrightarrow> (\<exists>rows. iterativo_linear g x0 tol max_iter = Inr rows)"
    using iterativo_linear_returns [of g x0 tol max_iter] by blast
  have c: "\<forall>rows. iterativo_linear g x0 tol max_iter = Inr rows \<longrightarrow>
      (\<forall>i < length rows.
          g (if i = 0 then x0 else fp_x (rows ! (i - 1))) = Some (fp_x (rows ! i)) \<and>
          fp_gx (rows ! i) = fp_x (rows ! i) \<and>
          fp_erro (rows ! i) = \<bar>fp_x (rows ! i) - (if i = 0 then x0 else fp_x (rows ! (i - 1)))\<bar> \<and>
          fp_iter (rows ! i) = int i + 1) \<and>
      (\<forall>i. Suc i < length rows \<longrightarrow> \<not> fp_erro (rows ! i) < tol) \<and>
      (length rows = nat max_iter \<or> (rows \<noteq> [] \<and> fp_erro (last rows) < tol))"
  proof (intro allI impI)
    fix rows assume r: "iterativo_linear g x0 tol max_iter = Inr rows"
    then obtain t where
      t: "for_range (iterativo_linear_body g tol) (nat max_iter) 1
            \<lparr>fs_x_prev = x0, fs_rows = []\<rparr> = Inr t"
      and rows: "rows = fs_rows t"
      by (auto simp: map_sum_Inr_iff iterativo_linear_def iterativo_linear_loop_def)
    note tr = iterativo_linear_trace [OF t, folded rows]
    have "length (fs_rows t) = length (fs_rows \<lparr>fs_x_prev = x0, fs_rows = []\<rparr>) + nat max_iter \<or>
        (fs_rows t \<noteq> [] \<and> fp_erro (last (fs_rows t)) < tol)"
    proof (rule for_range_full_or_break [where m = "\<lambda>s. length (fs_rows s)"
          and B = "\<lambda>s. fs_rows s \<noteq> [] \<and> fp_erro (last (fs_rows s)) < tol", OF t])
      fix k s s' assume "iterativo_linear_body g tol k s = Continue s'"
      from iterativo_linear_body_continue [OF this]
      show "length (fs_rows s') = Suc (length (fs_rows s))" by auto
    next
      fix k s s' assume "iterativo_linear_body g tol k s = Break s'"
      from iterativo_linear_body_break [OF this]
      show "fs_rows s' \<noteq> [] \<and> fp_erro (last (fs_rows s')) < tol" by auto
    qed
    then have "length rows = nat max_iter \<or> (rows \<noteq> [] \<and> fp_erro (last rows) < tol)"
      by (simp add: rows)
    with tr show "(\<forall>i < length rows.
          g (if i = 0 then x0 else fp_x (rows ! (i - 1))) = Some (fp_x (rows ! i)) \<and>
          fp_gx (rows ! i) = fp_x (rows ! i) \<and>
          fp_erro (rows ! i) = \<bar>fp_x (rows ! i) - (if i = 0 then x0 else fp_x (rows ! (i - 1)))\<bar> \<and>
          fp_iter (rows ! i) = int i + 1) \<and>
      (\<forall>i. Suc i < length rows \<longrightarrow> \<not> fp_erro (rows ! i) < tol) \<and>
      (length rows = nat max_iter \<or> (rows \<noteq> [] \<and> fp_erro (last rows) < tol))"
      by (intro conjI) (rule tr [THEN conjunct1], rule tr [THEN conjunct2])
  qed
  show ?thesis by (intro conjI) (rule a, rule b, rule c)
qed



theorem iterativo_linear_behaviour_witness:
  "iterativo_linear (\<lambda>x. Some (x / 2)) 1 (1 / 2) 5 =
     Inr [\<lparr>fp_iter = 1, fp_x = 1 / 2, fp_gx = 1 / 2, fp_erro = 1 / 2\<rparr>,
          \<lparr>fp_iter = 2, fp_x = 1 / 4, fp_gx = 1 / 4, fp_erro = 1 / 4\<rparr>] \<and>
   (length [\<lparr>fp_iter = 1, fp_x = 1 / 2, fp_gx = 1 / 2, fp_erro = 1 / 2\<rparr>,
          \<lparr>fp_iter = 2, fp_x = 1 / 4, fp_gx = 1 / 4, fp_erro = 1 / (4::real)\<rparr>] = nat 5 \<or>
    [\<lparr>fp_iter = 1, fp_x = 1 / 2, fp_gx = 1 / 2, fp_erro = 1 / 2\<rparr>,
          \<lparr>fp_iter = 2, fp_x = 1 / 4, fp_gx = 1 / 4, fp_erro = 1 / (4::real)\<rparr>] \<noteq> [] \<and>
    fp_erro (last [\<lparr>fp_iter = 1, fp_x = 1 / 2, fp_gx = 1 / 2, fp_erro = 1 / 2\<rparr>,
          \<lparr>fp_iter = 2, fp_x = 1 / 4, fp_gx = 1 / 4, fp_erro = 1 / (4::real)\<rparr>]) < 1 / 2)"
proof -
  let ?g = "\<lambda>x::real. Some (x / 2)"
  let ?rows = "[\<lparr>fp_iter = 1, fp_x = 1 / 2, fp_gx = 1 / 2, fp_erro = 1 / 2\<rparr>,
          \<lparr>fp_iter = 2, fp_x = 1 / 4, fp_gx = 1 / 4, fp_erro = 1 / (4::real)\<rparr>]"
  have e: "iterativo_linear ?g 1 (1 / 2) 5 = Inr ?rows"
    by (simp add: iterativo_linear_def iterativo_linear_loop_def iterativo_linear_body_def
        safe_eval_def Let_def eval_nat_numeral)
  note t = iterativo_linear_behaviour [where g = ?g and ?x0.0 = 1 and tol = "1 / 2" and max_iter = 5,
      THEN conjunct2, THEN conjunct2, rule_format, OF e]
  have "length ?rows = nat 5 \<or> (?rows \<noteq> [] \<and> fp_erro (last ?rows) < 1 / 2)"
    by (rule t [THEN conjunct2, THEN conjunct2])
  with e show ?thesis by blast
qed


end
